theory Spec2Isabelle
  imports Main "HOL-Library.AList"
begin

section \<open>JavaScript values, exceptions and effects\<close>

text \<open>
  The payloads handled by the cache and by the channel are JSON values. Numbers are the
  integers (timestamps and durations are whole milliseconds); \<open>JNull\<close> is JavaScript's
  \<open>null\<close>.
\<close>

datatype json =
    JNull
  | JBool bool
  | JNum int
  | JStr string
  | JArr "json list"
  | JObj "(string \<times> json) list"

text \<open>Truthiness, as \<open>if (x)\<close> and \<open>!x\<close> test it.\<close>

fun truthy :: "json \<Rightarrow> bool" where
  "truthy JNull = False"
| "truthy (JBool b) = b"
| "truthy (JNum n) = (n \<noteq> 0)"
| "truthy (JStr s) = (s \<noteq> [])"
| "truthy (JArr xs) = True"
| "truthy (JObj fs) = True"

datatype exn =
    SyntaxError    \<comment> \<open>thrown by \<open>JSON.parse\<close>\<close>
  | TypeError      \<comment> \<open>property access on \<open>null\<close>\<close>
  | DOMException   \<comment> \<open>thrown by the storage backend or by the \<open>WebSocket\<close> constructor\<close>
  | UserError      \<comment> \<open>thrown by a subscriber's callback\<close>

text \<open>
  A computation runs on a state, changes it, and either returns a value (\<open>Inr\<close>) or throws
  (\<open>Inl\<close>). The state reached when the exception is thrown is kept, as a \<open>catch\<close> block
  sees it.
\<close>

type_synonym ('s, 'a) js = "'s \<Rightarrow> (exn + 'a) \<times> 's"

definition ret :: "'a \<Rightarrow> ('s, 'a) js" where
  "ret x = (\<lambda>s. (Inr x, s))"

definition throw :: "exn \<Rightarrow> ('s, 'a) js" where
  "throw e = (\<lambda>s. (Inl e, s))"

definition bind :: "('s, 'a) js \<Rightarrow> ('a \<Rightarrow> ('s, 'b) js) \<Rightarrow> ('s, 'b) js" where
  "bind m f = (\<lambda>s. case m s of (Inl e, s') \<Rightarrow> (Inl e, s') | (Inr x, s') \<Rightarrow> f x s')"

definition try_catch :: "('s, 'a) js \<Rightarrow> (exn \<Rightarrow> ('s, 'a) js) \<Rightarrow> ('s, 'a) js" where
  "try_catch m h = (\<lambda>s. case m s of (Inl e, s') \<Rightarrow> h e s' | (Inr x, s') \<Rightarrow> (Inr x, s'))"

definition modify :: "('s \<Rightarrow> 's) \<Rightarrow> ('s, unit) js" where
  "modify f = (\<lambda>s. (Inr (), f s))"

definition gets :: "('s \<Rightarrow> 'a) \<Rightarrow> ('s, 'a) js" where
  "gets f = (\<lambda>s. (Inr (f s), s))"

text \<open>\<open>Array.prototype.forEach\<close>: an exception thrown by the callback ends the loop.\<close>

fun forEach :: "'a list \<Rightarrow> ('a \<Rightarrow> ('s, unit) js) \<Rightarrow> ('s, unit) js" where
  "forEach [] f = ret ()"
| "forEach (x # xs) f = bind (f x) (\<lambda>_. forEach xs f)"

text \<open>\<open>String.prototype.startsWith\<close>.\<close>

definition startsWith :: "string \<Rightarrow> string \<Rightarrow> bool" where
  "startsWith s p = (take (length p) s = p)"

section \<open>The cache (\<open>utils/cache\<close>)\<close>

subsection \<open>The storage backend\<close>

text \<open>
  A cache item is the object \<open>{data, timestamp, ttl}\<close> that \<open>setCache\<close> serialises.
\<close>

record cacheItem =
  data :: json
  timestamp :: int
  ttl :: int

text \<open>
  \<open>localStorage\<close> holds strings. The strings considered are the ones that matter to the
  cache: the serialisation of a cache item, the serialisation of \<open>null\<close>, and text that
  \<open>JSON.parse\<close> rejects (\<open>Malformed\<close>, which carries the text; the empty string is
  \<open>Malformed []\<close>). \<open>JSON.stringify\<close> and \<open>JSON.parse\<close> are the platform's: parsing
  what was serialised gives the value back.
\<close>

datatype parsed = PNull | PItem cacheItem

datatype stored = Malformed string | Serialised parsed

definition JSON_stringify :: "cacheItem \<Rightarrow> stored" where
  "JSON_stringify c = Serialised (PItem c)"

definition JSON_parse :: "stored \<Rightarrow> ('s, parsed) js" where
  "JSON_parse t = (case t of Malformed s \<Rightarrow> throw SyntaxError | Serialised p \<Rightarrow> ret p)"

text \<open>Reading a property of the parsed value: \<open>null.timestamp\<close> throws.\<close>

definition item_of :: "parsed \<Rightarrow> ('s, cacheItem) js" where
  "item_of p = (case p of PNull \<Rightarrow> throw TypeError | PItem c \<Rightarrow> ret c)"

text \<open>
  The browser: the entries of \<open>localStorage\<close> in key order, which of its operations
  throw (a full quota, storage disabled), and the console.
\<close>

record window =
  entries :: "(string \<times> stored) list"
  getItem_throws :: "string \<Rightarrow> bool"
  setItem_throws :: "string \<Rightarrow> stored \<Rightarrow> bool"
  removeItem_throws :: "string \<Rightarrow> bool"
  keys_throws :: bool
  console :: "string list"

definition getItem :: "string \<Rightarrow> ('a window_scheme, stored option) js" where
  "getItem key = (\<lambda>w. if getItem_throws w key then (Inl DOMException, w)
                       else (Inr (map_of (entries w) key), w))"

definition setItem :: "string \<Rightarrow> stored \<Rightarrow> ('a window_scheme, unit) js" where
  "setItem key v = (\<lambda>w. if setItem_throws w key v then (Inl DOMException, w)
                         else (Inr (), w\<lparr>entries := AList.update key v (entries w)\<rparr>))"

definition removeItem :: "string \<Rightarrow> ('a window_scheme, unit) js" where
  "removeItem key = (\<lambda>w. if removeItem_throws w key then (Inl DOMException, w)
                          else (Inr (), w\<lparr>entries := AList.delete key (entries w)\<rparr>))"

definition Object_keys :: "('a window_scheme, string list) js" where
  "Object_keys = (\<lambda>w. if keys_throws w then (Inl DOMException, w)
                       else (Inr (map fst (entries w)), w))"

definition console_warn :: "string \<Rightarrow> ('a window_scheme, unit) js" where
  "console_warn msg = modify (\<lambda>w. w\<lparr>console := console w @ [msg]\<rparr>)"

definition console_log :: "string \<Rightarrow> ('a window_scheme, unit) js" where
  "console_log msg = modify (\<lambda>w. w\<lparr>console := console w @ [msg]\<rparr>)"

definition console_error :: "string \<Rightarrow> ('a window_scheme, unit) js" where
  "console_error msg = modify (\<lambda>w. w\<lparr>console := console w @ [msg]\<rparr>)"

subsection \<open>The cache operations\<close>

text \<open>
  \<open>Date.now()\<close> is the argument \<open>now\<close> of each operation: the clock does not advance
  while one synchronous operation runs.
\<close>

definition DEFAULT_CACHE_TTL :: int where
  "DEFAULT_CACHE_TTL = 5 * 60 * 1000"

text \<open>
  Each operation is a \<open>try\<close> block and its \<open>catch\<close>; the \<open>try\<close> block is named
  \<open>_try\<close> so that what it throws can be spoken about.
\<close>

definition setCache_try :: "string \<Rightarrow> json \<Rightarrow> int \<Rightarrow> int \<Rightarrow> ('a window_scheme, unit) js" where
  "setCache_try key d t now =
     setItem key (JSON_stringify \<lparr>data = d, timestamp = now, ttl = t\<rparr>)"

definition setCache :: "string \<Rightarrow> json \<Rightarrow> int \<Rightarrow> int \<Rightarrow> ('a window_scheme, unit) js" where
  "setCache key d t now =
     try_catch (setCache_try key d t now) (\<lambda>error. console_warn ''Failed to set cache:'')"

definition getCache_try :: "string \<Rightarrow> int \<Rightarrow> ('a window_scheme, json) js" where
  "getCache_try key now =
     bind (getItem key) (\<lambda>cached.
       case cached of
         None \<Rightarrow> ret JNull
       | Some txt \<Rightarrow>
           if txt = Malformed [] then ret JNull
           else
             bind (JSON_parse txt) (\<lambda>p.
             bind (item_of p) (\<lambda>cacheItem.
               if now - timestamp cacheItem > ttl cacheItem
               then bind (removeItem key) (\<lambda>_. ret JNull)
               else ret (data cacheItem))))"

definition getCache :: "string \<Rightarrow> int \<Rightarrow> ('a window_scheme, json) js" where
  "getCache key now =
     try_catch (getCache_try key now)
       (\<lambda>error. bind (console_warn ''Failed to get cache:'') (\<lambda>_. ret JNull))"

definition hasValidCache :: "string \<Rightarrow> int \<Rightarrow> ('a window_scheme, bool) js" where
  "hasValidCache key now = bind (getCache key now) (\<lambda>r. ret (r \<noteq> JNull))"

definition clearCache :: "string \<Rightarrow> ('a window_scheme, unit) js" where
  "clearCache key =
     try_catch (removeItem key) (\<lambda>error. console_warn ''Failed to clear cache:'')"

text \<open>The decimal numeral that a template literal prints for an integer.\<close>

fun digits :: "nat \<Rightarrow> string" where
  "digits n =
     (if n < 10 then [''0123456789'' ! n]
      else digits (n div 10) @ [''0123456789'' ! (n mod 10)])"

definition String_of :: "int \<Rightarrow> string" where
  "String_of i = (if i < 0 then CHR ''-'' # digits (nat (- i)) else digits (nat i))"

text \<open>
  \<open>cleanupExpiredCache\<close>: the counter \<open>cleaned\<close> is a local variable of the function,
  carried through the loop.
\<close>

fun cleanup_loop :: "string list \<Rightarrow> int \<Rightarrow> nat \<Rightarrow> ('a window_scheme, nat) js" where
  "cleanup_loop [] now cleaned = ret cleaned"
| "cleanup_loop (key # keys) now cleaned =
     (if startsWith key ''pyperf_''
      then bind (hasValidCache key now) (\<lambda>valid.
             cleanup_loop keys now (if \<not> valid then cleaned + 1 else cleaned))
      else cleanup_loop keys now cleaned)"

definition cleanupExpiredCache :: "int \<Rightarrow> ('a window_scheme, nat) js" where
  "cleanupExpiredCache now =
     try_catch
       (bind Object_keys (\<lambda>keys.
        bind (cleanup_loop keys now 0) (\<lambda>cleaned.
        bind (console_log (''Cleaned up '' @ String_of (int cleaned) @
                             '' expired cache entries'')) (\<lambda>_.
        ret cleaned))))
       (\<lambda>error. bind (console_warn ''Failed to cleanup cache:'') (\<lambda>_. ret 0))"

subsection \<open>Cache keys\<close>

definition getDashboardCacheKey :: string where
  "getDashboardCacheKey = ''pyperf_dashboard''"

definition getHostMetricsCacheKey :: "string \<Rightarrow> int \<Rightarrow> string" where
  "getHostMetricsCacheKey hostname hours =
     ''pyperf_host_metrics'' @ ''_'' @ hostname @ ''_'' @ String_of hours @ ''h''"

subsection \<open>Cache statistics\<close>

record entry_stat =
  st_key :: string
  st_age :: int
  st_ttl :: int
  st_size :: nat
  st_expired :: bool

record stats =
  totalEntries :: nat
  pyperfEntries :: nat
  totalSize :: nat
  stat_entries :: "entry_stat list"

text \<open>\<open>Math.round(x / 1000)\<close> for an integer \<open>x\<close>: halves round up.\<close>

definition round_seconds :: "int \<Rightarrow> int" where
  "round_seconds x = (x + 500) div 1000"

text \<open>
  \<open>getCacheStats\<close> fills the local object \<open>stats\<close> while it scans the storage, and
  returns it also when the scan is cut short by an exception: the loop runs on the pair of
  \<open>stats\<close> and the browser. The length of a stored string is the parameter \<open>len\<close>.
\<close>

definition on_window :: "('w, 'a) js \<Rightarrow> ('l \<times> 'w, 'a) js" where
  "on_window m = (\<lambda>(l, w). case m w of (r, w') \<Rightarrow> (r, (l, w')))"

definition on_local :: "('l \<Rightarrow> 'l) \<Rightarrow> ('l \<times> 'w, unit) js" where
  "on_local f = modify (\<lambda>(l, w). (f l, w))"

definition stats_entry :: "(stored \<Rightarrow> nat) \<Rightarrow> int \<Rightarrow> string \<Rightarrow> stored \<Rightarrow> cacheItem \<Rightarrow> entry_stat" where
  "stats_entry len now key txt cacheItem =
     (let age = now - timestamp cacheItem;
          isExpired = age > ttl cacheItem
      in \<lparr>st_key = key, st_age = round_seconds age, st_ttl = round_seconds (ttl cacheItem),
          st_size = len txt, st_expired = isExpired\<rparr>)"

definition stats_visit :: "(stored \<Rightarrow> nat) \<Rightarrow> int \<Rightarrow> string \<Rightarrow> (stats \<times> 'a window_scheme, unit) js" where
  "stats_visit len now key =
     (if startsWith key ''pyperf_'' then
        bind (on_local (\<lambda>s. s\<lparr>pyperfEntries := pyperfEntries s + 1\<rparr>)) (\<lambda>_.
        bind (on_window (getItem key)) (\<lambda>d.
          case d of
            None \<Rightarrow> throw TypeError
          | Some txt \<Rightarrow>
              bind (on_local (\<lambda>s. s\<lparr>totalSize := totalSize s + len txt\<rparr>)) (\<lambda>_.
              try_catch
                (bind (JSON_parse txt) (\<lambda>p.
                 bind (item_of p) (\<lambda>cacheItem.
                   on_local (\<lambda>s. s\<lparr>stat_entries :=
                     stat_entries s @ [stats_entry len now key txt cacheItem]\<rparr>))))
                (\<lambda>e. ret ()))))
      else ret ())"

definition getCacheStats :: "(stored \<Rightarrow> nat) \<Rightarrow> int \<Rightarrow> ('a window_scheme, stats) js" where
  "getCacheStats len now = (\<lambda>w.
     case try_catch
            (bind (on_window Object_keys) (\<lambda>keys.
             bind (on_local (\<lambda>s. s\<lparr>totalEntries := length keys\<rparr>)) (\<lambda>_.
             forEach keys (stats_visit len now))))
            (\<lambda>error. on_window (console_warn ''Failed to get cache stats:''))
            (\<lparr>totalEntries = 0, pyperfEntries = 0, totalSize = 0, stat_entries = []\<rparr>, w)
     of (_, (s, w')) \<Rightarrow> (Inr s, w'))"

section \<open>The store's cached fetches (\<open>stores/system\<close>)\<close>

text \<open>
  The part of the store that the two fetch actions read and write, on top of the browser.
  \<open>api_calls\<close> records every request handed to \<open>systemApi\<close>, in order. A field
  that is \<open>null\<close> or a value in the source is a \<open>json\<close> here.
\<close>

datatype api_request = GetDashboardData | GetHostMetrics string int

record app = window +
  dashboardData :: json
  currentHost :: json
  currentHostMetrics :: json
  isLoadingDashboard :: bool
  isLoadingHostDetail :: bool
  dashboardError :: json
  hostDetailError :: json
  lastUpdate :: json
  usingCachedData :: bool
  api_calls :: "api_request list"

text \<open>
  Reading a property: it throws on \<open>null\<close>; a property that is missing reads as
  \<open>undefined\<close>, which is \<open>JNull\<close> here (only its truthiness is used).
\<close>

definition get_prop :: "json \<Rightarrow> string \<Rightarrow> ('s, json) js" where
  "get_prop v name =
     (case v of
        JNull \<Rightarrow> throw TypeError
      | JObj fs \<Rightarrow> ret (case map_of fs name of None \<Rightarrow> JNull | Some x \<Rightarrow> x)
      | _ \<Rightarrow> ret JNull)"

text \<open>
  An \<open>async\<close> action runs synchronously up to its first \<open>await\<close>. The action
  \<open>fetchDashboardDataFromAPI\<close> is its synchronous part, \<open>_call\<close>, which hands the request
  to the API, and its continuation, \<open>_resume\<close>, which runs when the request has settled
  with a payload (\<open>Inr\<close>) or with an error message (\<open>Inl\<close>).
\<close>

definition fetchDashboardDataFromAPI_call :: "string \<Rightarrow> (app, unit) js" where
  "fetchDashboardDataFromAPI_call cacheKey =
     bind (modify (\<lambda>a. a\<lparr>dashboardError := JNull\<rparr>)) (\<lambda>_.
     modify (\<lambda>a. a\<lparr>api_calls := api_calls a @ [GetDashboardData]\<rparr>))"

definition try_finally :: "('s, 'a) js \<Rightarrow> ('s \<Rightarrow> 's) \<Rightarrow> ('s, 'a) js" where
  "try_finally m f = (\<lambda>s. case m s of (r, s') \<Rightarrow> (r, f s'))"

definition fetchDashboardDataFromAPI_resume :: "string \<Rightarrow> string + json \<Rightarrow> int \<Rightarrow> (app, unit) js" where
  "fetchDashboardDataFromAPI_resume cacheKey response now =
     try_finally
       (case response of
          Inr d \<Rightarrow>
            bind (modify (\<lambda>a. a\<lparr>dashboardData := d, lastUpdate := JNum now,
                                     usingCachedData := False\<rparr>)) (\<lambda>_.
            setCache cacheKey d DEFAULT_CACHE_TTL now)
        | Inl message \<Rightarrow>
            bind (modify (\<lambda>a. a\<lparr>dashboardError :=
                    JStr (if message \<noteq> [] then message else ''Failed to fetch system data'')\<rparr>)) (\<lambda>_.
            bind (console_error ''Error fetching dashboard data:'') (\<lambda>_.
            bind (getCache cacheKey now) (\<lambda>cachedData.
              if truthy cachedData
              then bind (gets dashboardData) (\<lambda>dd.
                   bind (get_prop dd ''total_hosts'') (\<lambda>total_hosts.
                     if \<not> truthy total_hosts
                     then modify (\<lambda>a. a\<lparr>dashboardData := cachedData, usingCachedData := True\<rparr>)
                     else ret ()))
              else ret ()))))
       (\<lambda>a. a\<lparr>isLoadingDashboard := False\<rparr>)"

text \<open>
  What the caller of a fetch action gets: a promise that is already fulfilled when the
  action returns (\<open>Returned\<close>), or one that waits for the API request (\<open>Awaiting\<close>).
\<close>

datatype completion = Returned | Awaiting

definition fetchDashboardData :: "bool \<Rightarrow> int \<Rightarrow> (app, completion) js" where
  "fetchDashboardData forceRefresh now =
     (let cacheKey = getDashboardCacheKey in
      bind (if \<not> forceRefresh
            then bind (getCache cacheKey now) (\<lambda>cachedData.
                   if truthy cachedData
                   then bind (modify (\<lambda>a. a\<lparr>dashboardData := cachedData, usingCachedData := True,
                                                 lastUpdate := JNum now\<rparr>)) (\<lambda>_.
                        bind (fetchDashboardDataFromAPI_call cacheKey) (\<lambda>_.
                        ret True))
                   else ret False)
            else ret False) (\<lambda>returned.
      if returned then ret Returned
      else bind (modify (\<lambda>a. a\<lparr>isLoadingDashboard := True, usingCachedData := False\<rparr>)) (\<lambda>_.
           bind (fetchDashboardDataFromAPI_call cacheKey) (\<lambda>_.
           ret Awaiting))))"

definition fetchHostMetricsFromAPI_call :: "string \<Rightarrow> int \<Rightarrow> string \<Rightarrow> (app, unit) js" where
  "fetchHostMetricsFromAPI_call hostname hours cacheKey =
     bind (modify (\<lambda>a. a\<lparr>hostDetailError := JNull\<rparr>)) (\<lambda>_.
     modify (\<lambda>a. a\<lparr>api_calls := api_calls a @ [GetHostMetrics hostname hours]\<rparr>))"

definition fetchHostMetricsFromAPI_resume :: "string \<Rightarrow> int \<Rightarrow> string \<Rightarrow> string + json \<Rightarrow> int \<Rightarrow> (app, unit) js" where
  "fetchHostMetricsFromAPI_resume hostname hours cacheKey response now =
     try_finally
       (case response of
          Inr d \<Rightarrow>
            bind (modify (\<lambda>a. a\<lparr>currentHostMetrics := d, usingCachedData := False\<rparr>)) (\<lambda>_.
            setCache cacheKey d (3 * 60 * 1000) now)
        | Inl message \<Rightarrow>
            bind (modify (\<lambda>a. a\<lparr>hostDetailError :=
                    JStr (if message \<noteq> [] then message else ''Failed to fetch host metrics'')\<rparr>)) (\<lambda>_.
            bind (console_error ''Error fetching host metrics:'') (\<lambda>_.
            bind (getCache cacheKey now) (\<lambda>cachedData.
            bind (gets currentHostMetrics) (\<lambda>chm.
              if truthy cachedData \<and> \<not> truthy chm
              then modify (\<lambda>a. a\<lparr>currentHostMetrics := cachedData, usingCachedData := True\<rparr>)
              else ret ())))))
       (\<lambda>a. a\<lparr>isLoadingHostDetail := False\<rparr>)"

definition fetchHostMetrics :: "string \<Rightarrow> int \<Rightarrow> bool \<Rightarrow> int \<Rightarrow> (app, completion) js" where
  "fetchHostMetrics hostname hours forceRefresh now =
     (let cacheKey = getHostMetricsCacheKey hostname hours in
      bind (modify (\<lambda>a. a\<lparr>currentHost := JStr hostname\<rparr>)) (\<lambda>_.
      bind (if \<not> forceRefresh
            then bind (getCache cacheKey now) (\<lambda>cachedData.
                   if truthy cachedData
                   then bind (modify (\<lambda>a. a\<lparr>currentHostMetrics := cachedData,
                                                 usingCachedData := True\<rparr>)) (\<lambda>_.
                        bind (fetchHostMetricsFromAPI_call hostname hours cacheKey) (\<lambda>_.
                        ret True))
                   else ret False)
            else ret False) (\<lambda>returned.
      if returned then ret Returned
      else bind (modify (\<lambda>a. a\<lparr>isLoadingHostDetail := True, usingCachedData := False\<rparr>)) (\<lambda>_.
           bind (fetchHostMetricsFromAPI_call hostname hours cacheKey) (\<lambda>_.
           ret Awaiting)))))"

section \<open>The reconnecting channel (\<open>services/websocket\<close>)\<close>

subsection \<open>The browser's side: transports, timers, callbacks\<close>

datatype readyState = CONNECTING | OPEN | CLOSING | CLOSED

text \<open>
  The promise that \<open>connect\<close> returns: fulfilled or rejected from the start, or the promise
  made for the transport with the given handle, which the handlers of that transport settle.
\<close>

datatype promise_state = Pending | Fulfilled | Rejected

datatype promise = Resolved | Rejected_at_once | Of_transport nat

text \<open>What \<open>send\<close> hands to the transport: a string as it is, any other value serialised.\<close>

datatype outgoing = Text string | Stringified json

text \<open>An incoming frame: text that \<open>JSON.parse\<close> rejects, or the text of a JSON value.\<close>

datatype incoming = NotJSON string | JSONText json

text \<open>
  A transport, as the channel sees it: the address it was made for, its state, what was
  sent on it, the calls of its \<open>close\<close>, the state of the promise of the \<open>connect\<close> that
  made it, and whether that promise has got the \<open>catch\<close> handler of the reconnect timer.
\<close>

record transport =
  t_wsUrl :: string
  t_url :: string
  t_protocols :: "string list"
  readyState :: readyState
  sent :: "outgoing list"
  close_calls :: "(int \<times> string) list"
  t_promise :: promise_state
  t_caught :: bool

text \<open>
  A timer made by \<open>setTimeout\<close> in \<open>scheduleReconnect\<close>: its delay, the arguments its
  callback will pass to \<open>connect\<close>, and whether it is still to fire. A timer made by
  \<open>setInterval\<close>: its period and whether it is still running. The handle of a timer is its
  position in the list; handles are truthy.
\<close>

record timeout =
  tm_delay :: int
  tm_url :: string
  tm_protocols :: "string list"
  tm_pending :: bool

record interval =
  iv_period :: int
  iv_active :: bool

text \<open>
  A subscriber's callback runs on the subscriber's own state \<open>'u\<close> and may throw after
  having changed it. While it runs it may call \<open>on\<close> and \<open>off\<close> of the channel: the calls
  it makes are the requests it returns, in the order it makes them (\<open>off\<close> names the
  callback to remove by its identity). Callbacks are compared by identity (\<open>cb_id\<close>).
  Other calls into the channel from inside a callback are not modelled.
\<close>

datatype 'u callback =
    Callback (cb_id: nat) (cb_run: "json \<Rightarrow> 'u \<Rightarrow> exn option \<times> 'u \<times> 'u request list")
and 'u request =
    Calls_on string "'u callback"
  | Calls_off string nat

text \<open>
  The fields of a \<open>WebSocketService\<close>, followed by the browser around it. \<open>invoked\<close>
  records every call of a subscriber's callback (event name and callback), in order.
  \<open>maxReconnectAttempts\<close> and \<open>maxReconnectDelay\<close> are set by the constructor and never
  assigned again: they are constants.
\<close>

record 'u channel =
  socket :: "nat option"
  reconnectInterval :: "nat option"
  reconnectAttempts :: nat
  reconnectDelay :: int
  listeners :: "string \<Rightarrow> 'u callback list option"
  isConnected :: bool
  isConnecting :: bool
  heartbeatInterval :: "nat option"
  transports :: "transport list"
  timeouts :: "timeout list"
  intervals :: "interval list"
  ws_console :: "string list"
  location_protocol :: string
  location_host :: string
  constructor_throws :: "string \<Rightarrow> bool"
  invoked :: "(string \<times> nat) list"
  user :: 'u

definition maxReconnectAttempts :: nat where
  "maxReconnectAttempts = 5"

definition maxReconnectDelay :: int where
  "maxReconnectDelay = 30000"

definition WebSocketService :: "string \<Rightarrow> string \<Rightarrow> (string \<Rightarrow> bool) \<Rightarrow> 'u \<Rightarrow> 'u channel" where
  "WebSocketService protocol host throws u =
     \<lparr>socket = None, reconnectInterval = None, reconnectAttempts = 0, reconnectDelay = 1000,
      listeners = (\<lambda>_. None), isConnected = False, isConnecting = False,
      heartbeatInterval = None,
      transports = [], timeouts = [], intervals = [], ws_console = [],
      location_protocol = protocol, location_host = host, constructor_throws = throws,
      invoked = [], user = u\<rparr>"

definition ws_log :: "string \<Rightarrow> ('u channel, unit) js" where
  "ws_log msg = modify (\<lambda>w. w\<lparr>ws_console := ws_console w @ [msg]\<rparr>)"

text \<open>The state of a transport; a handle that names no transport reads as closed.\<close>

definition ready :: "'u channel \<Rightarrow> nat \<Rightarrow> readyState" where
  "ready w sid = (if sid < length (transports w) then readyState (transports w ! sid) else CLOSED)"

definition on_transport :: "nat \<Rightarrow> (transport \<Rightarrow> transport) \<Rightarrow> ('u channel, unit) js" where
  "on_transport sid f =
     modify (\<lambda>w. if sid < length (transports w)
                 then w\<lparr>transports := (transports w)[sid := f (transports w ! sid)]\<rparr> else w)"

text \<open>\<open>WebSocket.prototype.send\<close> and \<open>WebSocket.prototype.close\<close>.\<close>

definition socket_send :: "nat \<Rightarrow> outgoing \<Rightarrow> ('u channel, unit) js" where
  "socket_send sid message = on_transport sid (\<lambda>t. t\<lparr>sent := sent t @ [message]\<rparr>)"

definition socket_close :: "nat \<Rightarrow> int \<Rightarrow> string \<Rightarrow> ('u channel, unit) js" where
  "socket_close sid code reason =
     on_transport sid (\<lambda>t. t\<lparr>readyState := (if readyState t = CLOSED then CLOSED else CLOSING),
                              close_calls := close_calls t @ [(code, reason)]\<rparr>)"

definition clearTimeout :: "nat \<Rightarrow> ('u channel, unit) js" where
  "clearTimeout tid =
     modify (\<lambda>w. if tid < length (timeouts w)
                 then w\<lparr>timeouts := (timeouts w)[tid := (timeouts w ! tid)\<lparr>tm_pending := False\<rparr>]\<rparr>
                 else w)"

definition clearInterval :: "nat \<Rightarrow> ('u channel, unit) js" where
  "clearInterval iid =
     modify (\<lambda>w. if iid < length (intervals w)
                 then w\<lparr>intervals := (intervals w)[iid := (intervals w ! iid)\<lparr>iv_active := False\<rparr>]\<rparr>
                 else w)"

text \<open>Settling the promise made for a transport: only a pending promise changes.\<close>

definition settle :: "nat \<Rightarrow> promise_state \<Rightarrow> ('u channel, unit) js" where
  "settle sid outcome =
     on_transport sid (\<lambda>t. if t_promise t = Pending then t\<lparr>t_promise := outcome\<rparr> else t)"

subsection \<open>Subscribers\<close>

definition on :: "string \<Rightarrow> 'u callback \<Rightarrow> ('u channel, unit) js" where
  "on event callback =
     modify (\<lambda>w. w\<lparr>listeners := (listeners w)
       (event \<mapsto> (case listeners w event of None \<Rightarrow> [] | Some cbs \<Rightarrow> cbs) @ [callback])\<rparr>)"

text \<open>\<open>indexOf\<close> and \<open>splice(index, 1)\<close>: the first occurrence of the callback is removed.\<close>

fun splice_first :: "nat \<Rightarrow> 'u callback list \<Rightarrow> 'u callback list" where
  "splice_first i [] = []"
| "splice_first i (c # cs) = (if cb_id c = i then cs else c # splice_first i cs)"

definition off :: "string \<Rightarrow> 'u callback \<Rightarrow> ('u channel, unit) js" where
  "off event callback =
     modify (\<lambda>w. case listeners w event of
                   None \<Rightarrow> w
                 | Some cbs \<Rightarrow> w\<lparr>listeners := (listeners w)
                     (event \<mapsto> splice_first (cb_id callback) cbs)\<rparr>)"

text \<open>
  A call of \<open>on\<close> or \<open>off\<close> made by a callback while it runs. \<open>off\<close> looks at the
  identity of the callback it is given and at nothing else.
\<close>

fun perform_request :: "'u request \<Rightarrow> ('u channel, unit) js" where
  "perform_request (Calls_on event callback) = on event callback"
| "perform_request (Calls_off event i) = off event (Callback i (\<lambda>d u. (None, u, [])))"

definition handler_error :: "string \<Rightarrow> string" where
  "handler_error event = ''Error in WebSocket event handler for '' @ event"

text \<open>
  One round of the loop in \<open>emit\<close>: the call of the callback (\<open>call_back\<close>), inside
  its \<open>try\<close> with the \<open>catch\<close> that logs (\<open>emit_one\<close>). The calls of \<open>on\<close> and \<open>off\<close>
  that the callback makes take effect while it runs, also when it throws afterwards.
\<close>

definition call_back :: "string \<Rightarrow> json \<Rightarrow> 'u callback \<Rightarrow> ('u channel, unit) js" where
  "call_back event d callback = (\<lambda>w.
     case cb_run callback d (user w) of
       (thrown, u', requests) \<Rightarrow>
         ((case thrown of None \<Rightarrow> Inr () | Some e \<Rightarrow> Inl e),
          snd (forEach requests perform_request
                 (w\<lparr>user := u', invoked := invoked w @ [(event, cb_id callback)]\<rparr>))))"

definition emit_one :: "string \<Rightarrow> json \<Rightarrow> 'u callback \<Rightarrow> ('u channel, unit) js" where
  "emit_one event d callback =
     try_catch (call_back event d callback) (\<lambda>error. ws_log (handler_error event))"

text \<open>
  \<open>emit\<close> runs \<open>forEach\<close> on the listener array itself, which \<open>on\<close> and \<open>off\<close> change in
  place. The number of rounds is the length of the array when \<open>emit\<close> starts; round \<open>k\<close>
  calls the callback found at index \<open>k\<close> of the array as it is then, and calls nothing
  when the array has become too short (\<open>emit_from\<close>, with the index and the number of
  rounds left).
\<close>

fun emit_from :: "string \<Rightarrow> json \<Rightarrow> nat \<Rightarrow> nat \<Rightarrow> ('u channel, unit) js" where
  "emit_from event d k 0 = ret ()"
| "emit_from event d k (Suc n) =
     bind (\<lambda>w. case listeners w event of
                  None \<Rightarrow> ret () w
                | Some cbs \<Rightarrow> if k < length cbs then emit_one event d (cbs ! k) w else ret () w)
          (\<lambda>_. emit_from event d (Suc k) n)"

definition emit :: "string \<Rightarrow> json \<Rightarrow> ('u channel, unit) js" where
  "emit event d = (\<lambda>w.
     case listeners w event of
       None \<Rightarrow> ret () w
     | Some cbs \<Rightarrow> emit_from event d 0 (length cbs) w)"

subsection \<open>Sending\<close>

definition send :: "json \<Rightarrow> ('u channel, unit) js" where
  "send d = (\<lambda>w.
     case socket w of
       Some sid \<Rightarrow>
         if ready w sid = OPEN
         then bind (socket_send sid (case d of JStr s \<Rightarrow> Text s | _ \<Rightarrow> Stringified d)) (\<lambda>_.
              ws_log ''WebSocket message sent:'') w
         else ws_log ''WebSocket not connected, cannot send message:'' w
     | None \<Rightarrow> ws_log ''WebSocket not connected, cannot send message:'' w)"

subsection \<open>Connecting and the handlers of a transport\<close>

definition getWebSocketUrl :: "'u channel \<Rightarrow> string \<Rightarrow> string" where
  "getWebSocketUrl w path =
     (let protocol = (if location_protocol w = ''https:'' then ''wss:'' else ''ws:'');
          host = location_host w;
          fullPath = (if startsWith path ''/'' then path else ''/'' @ path)
      in protocol @ ''//'' @ host @ fullPath)"

text \<open>
  \<open>connect\<close>: the guard, then the executor of the new promise, which runs at once. The
  handlers it installs on the new transport are the functions \<open>socket_onopen\<close>,
  \<open>socket_onmessage\<close>, \<open>socket_onclose\<close> and \<open>socket_onerror\<close> below. The transport keeps
  the \<open>url\<close> and \<open>protocols\<close> that the closure of its \<open>onclose\<close> holds; the handle
  given to \<open>socket_onopen\<close> and \<open>socket_onerror\<close> stands for the \<open>resolve\<close> and \<open>reject\<close>
  of the promise made with the transport.
\<close>

definition connect :: "string \<Rightarrow> string list \<Rightarrow> ('u channel, promise) js" where
  "connect url protocols = (\<lambda>w.
     if isConnecting w \<or> isConnected w
     then bind (ws_log ''WebSocket already connecting or connected'') (\<lambda>_. ret Resolved) w
     else
       bind (modify (\<lambda>w. w\<lparr>isConnecting := True\<rparr>)) (\<lambda>_.
       bind (ws_log (''Connecting to WebSocket: '' @ url)) (\<lambda>_.
       try_catch
         (\<lambda>w. let wsUrl = getWebSocketUrl w url in
              if constructor_throws w wsUrl then (Inl DOMException, w)
              else (Inr (Of_transport (length (transports w))),
                    w\<lparr>socket := Some (length (transports w)),
                      transports := transports w @
                        [\<lparr>t_wsUrl = wsUrl, t_url = url, t_protocols = protocols,
                          readyState = CONNECTING, sent = [], close_calls = [],
                          t_promise = Pending, t_caught = False\<rparr>]\<rparr>))
         (\<lambda>error. bind (modify (\<lambda>w. w\<lparr>isConnecting := False\<rparr>)) (\<lambda>_.
                   ret Rejected_at_once)))) w)"

definition socket_onopen :: "nat \<Rightarrow> ('u channel, unit) js" where
  "socket_onopen sid =
     bind (ws_log ''WebSocket connected successfully'') (\<lambda>_.
     bind (modify (\<lambda>w. w\<lparr>isConnected := True, isConnecting := False,
                           reconnectAttempts := 0, reconnectDelay := 1000\<rparr>)) (\<lambda>_.
     bind (\<lambda>w. case reconnectInterval w of
                  Some tid \<Rightarrow> bind (clearTimeout tid) (\<lambda>_.
                                modify (\<lambda>w. w\<lparr>reconnectInterval := None\<rparr>)) w
                | None \<Rightarrow> ret () w) (\<lambda>_.
     bind (send (JObj [(''type'', JStr ''subscribe_all'')])) (\<lambda>_.
     bind (emit ''connected'' (JObj [(''type'', JStr ''open'')])) (\<lambda>_.
     settle sid Fulfilled)))))"

definition socket_onmessage :: "nat \<Rightarrow> incoming \<Rightarrow> ('u channel, unit) js" where
  "socket_onmessage sid event_data =
     try_catch
       (bind (case event_data of NotJSON s \<Rightarrow> throw SyntaxError | JSONText v \<Rightarrow> ret v) (\<lambda>d.
        bind (ws_log ''WebSocket message received:'') (\<lambda>_.
        bind (emit ''message'' d) (\<lambda>_.
        bind (get_prop d ''type'') (\<lambda>type.
          if truthy type
          then (case type of JStr name \<Rightarrow> emit name d | _ \<Rightarrow> ret ())
          else ret ())))))
       (\<lambda>error. ws_log ''Error parsing WebSocket message:'')"

definition scheduleReconnect :: "string \<Rightarrow> string list \<Rightarrow> ('u channel, unit) js" where
  "scheduleReconnect url protocols =
     bind (\<lambda>w. case reconnectInterval w of
                  Some tid \<Rightarrow> clearTimeout tid w
                | None \<Rightarrow> ret () w) (\<lambda>_.
     bind (ws_log ''Attempting to reconnect'') (\<lambda>_.
     modify (\<lambda>w. w\<lparr>reconnectInterval := Some (length (timeouts w)),
                   timeouts := timeouts w @
                     [\<lparr>tm_delay = reconnectDelay w, tm_url = url, tm_protocols = protocols,
                       tm_pending = True\<rparr>]\<rparr>)))"

definition socket_onclose :: "string \<Rightarrow> string list \<Rightarrow> int \<Rightarrow> string \<Rightarrow> ('u channel, unit) js" where
  "socket_onclose url protocols code reason =
     bind (ws_log ''WebSocket connection closed:'') (\<lambda>_.
     bind (modify (\<lambda>w. w\<lparr>isConnected := False, isConnecting := False, socket := None\<rparr>)) (\<lambda>_.
     bind (emit ''disconnected'' (JObj [(''code'', JNum code), (''reason'', JStr reason)])) (\<lambda>_.
     (\<lambda>w. if code \<noteq> 1000 \<and> reconnectAttempts w < maxReconnectAttempts
          then scheduleReconnect url protocols w
          else ret () w))))"

definition socket_onerror :: "nat \<Rightarrow> ('u channel, unit) js" where
  "socket_onerror sid =
     bind (ws_log ''WebSocket error:'') (\<lambda>_.
     bind (modify (\<lambda>w. w\<lparr>isConnecting := False\<rparr>)) (\<lambda>_.
     bind (emit ''error'' (JObj [(''type'', JStr ''error'')])) (\<lambda>_.
     bind (gets (\<lambda>w. sid < length (transports w) \<and> t_caught (transports w ! sid) \<and>
                       t_promise (transports w ! sid) = Pending)) (\<lambda>caught.
     bind (settle sid Rejected) (\<lambda>_.
     if caught then ws_log ''Reconnection failed:'' else ret ())))))"

text \<open>
  The callback that \<open>scheduleReconnect\<close> hands to \<open>setTimeout\<close>. The promise of its
  \<open>connect\<close> gets a \<open>catch\<close> handler that only logs: at once when the promise is
  already rejected, from \<open>socket_onerror\<close> when the transport rejects it later.
\<close>

definition reconnect_timer :: "string \<Rightarrow> string list \<Rightarrow> ('u channel, unit) js" where
  "reconnect_timer url protocols =
     bind (modify (\<lambda>w. w\<lparr>reconnectAttempts := reconnectAttempts w + 1\<rparr>)) (\<lambda>_.
     bind (modify (\<lambda>w. w\<lparr>reconnectDelay := min (reconnectDelay w * 2) maxReconnectDelay\<rparr>)) (\<lambda>_.
     bind (connect url protocols) (\<lambda>p.
       case p of
         Rejected_at_once \<Rightarrow> ws_log ''Reconnection failed:''
       | Of_transport sid \<Rightarrow> on_transport sid (\<lambda>t. t\<lparr>t_caught := True\<rparr>)
       | Resolved \<Rightarrow> ret ())))"

definition disconnect :: "('u channel, unit) js" where
  "disconnect =
     bind (\<lambda>w. case reconnectInterval w of
                  Some tid \<Rightarrow> bind (clearTimeout tid) (\<lambda>_.
                                modify (\<lambda>w. w\<lparr>reconnectInterval := None\<rparr>)) w
                | None \<Rightarrow> ret () w) (\<lambda>_.
     bind (\<lambda>w. case socket w of
                  Some sid \<Rightarrow> bind (ws_log ''Disconnecting WebSocket'') (\<lambda>_.
                              bind (socket_close sid 1000 ''Client disconnecting'') (\<lambda>_.
                              modify (\<lambda>w. w\<lparr>socket := None\<rparr>))) w
                | None \<Rightarrow> ret () w) (\<lambda>_.
     modify (\<lambda>w. w\<lparr>isConnected := False, isConnecting := False, reconnectAttempts := 0\<rparr>)))"

subsection \<open>Heartbeat\<close>

definition isSocketConnected :: "'u channel \<Rightarrow> bool" where
  "isSocketConnected w =
     (isConnected w \<and> (case socket w of None \<Rightarrow> False | Some sid \<Rightarrow> ready w sid = OPEN))"

definition stopHeartbeat :: "('u channel, unit) js" where
  "stopHeartbeat = (\<lambda>w.
     case heartbeatInterval w of
       Some iid \<Rightarrow> bind (clearInterval iid) (\<lambda>_.
                    modify (\<lambda>w. w\<lparr>heartbeatInterval := None\<rparr>)) w
     | None \<Rightarrow> ret () w)"

definition startHeartbeat :: "int \<Rightarrow> ('u channel, unit) js" where
  "startHeartbeat period =
     bind stopHeartbeat (\<lambda>_.
     modify (\<lambda>w. w\<lparr>heartbeatInterval := Some (length (intervals w)),
                   intervals := intervals w @ [\<lparr>iv_period = period, iv_active = True\<rparr>]\<rparr>))"

text \<open>The callback that \<open>startHeartbeat\<close> hands to \<open>setInterval\<close>.\<close>

definition heartbeat_tick :: "int \<Rightarrow> ('u channel, unit) js" where
  "heartbeat_tick now = (\<lambda>w.
     if isSocketConnected w
     then send (JObj [(''type'', JStr ''ping''), (''timestamp'', JNum now)]) w
     else ret () w)"

subsection \<open>Executions\<close>

text \<open>
  What can happen to a channel: a call of one of its methods, or the browser running one
  of the callbacks the channel gave it. The browser opens a transport that is connecting,
  delivers frames on one that is open or closing, reports an error or a close on one that
  is not yet closed (closing it), fires a timeout that is pending, and ticks an interval
  that is active; anything else does not happen and leaves the state as it is.
\<close>

datatype 'u event =
    Call_connect string "string list"
  | Call_disconnect
  | Call_on string "'u callback"
  | Call_off string "'u callback"
  | Call_send json
  | Call_startHeartbeat int
  | Call_stopHeartbeat
  | Opens nat
  | Delivers nat incoming
  | Closes nat int string
  | Fails nat
  | Timeout_fires nat
  | Interval_ticks nat int

definition set_readyState :: "nat \<Rightarrow> readyState \<Rightarrow> ('u channel, unit) js" where
  "set_readyState sid st = on_transport sid (\<lambda>t. t\<lparr>readyState := st\<rparr>)"

definition pending :: "'u channel \<Rightarrow> nat \<Rightarrow> bool" where
  "pending w tid = (tid < length (timeouts w) \<and> tm_pending (timeouts w ! tid))"

definition active :: "'u channel \<Rightarrow> nat \<Rightarrow> bool" where
  "active w iid = (iid < length (intervals w) \<and> iv_active (intervals w ! iid))"

fun perform :: "'u event \<Rightarrow> ('u channel, unit) js" where
  "perform (Call_connect url protocols) = bind (connect url protocols) (\<lambda>_. ret ())"
| "perform Call_disconnect = disconnect"
| "perform (Call_on event callback) = on event callback"
| "perform (Call_off event callback) = off event callback"
| "perform (Call_send d) = send d"
| "perform (Call_startHeartbeat period) = startHeartbeat period"
| "perform Call_stopHeartbeat = stopHeartbeat"
| "perform (Opens sid) = (\<lambda>w.
     if ready w sid = CONNECTING
     then bind (set_readyState sid OPEN) (\<lambda>_. socket_onopen sid) w
     else ret () w)"
| "perform (Delivers sid event_data) = (\<lambda>w.
     if ready w sid = OPEN \<or> ready w sid = CLOSING
     then socket_onmessage sid event_data w
     else ret () w)"
| "perform (Closes sid code reason) = (\<lambda>w.
     if ready w sid \<noteq> CLOSED
     then bind (set_readyState sid CLOSED) (\<lambda>_.
          socket_onclose (t_url (transports w ! sid)) (t_protocols (transports w ! sid))
            code reason) w
     else ret () w)"
| "perform (Fails sid) = (\<lambda>w.
     if ready w sid \<noteq> CLOSED then socket_onerror sid w else ret () w)"
| "perform (Timeout_fires tid) = (\<lambda>w.
     if pending w tid
     then bind (clearTimeout tid) (\<lambda>_.
          reconnect_timer (tm_url (timeouts w ! tid)) (tm_protocols (timeouts w ! tid))) w
     else ret () w)"
| "perform (Interval_ticks iid now) = (\<lambda>w.
     if active w iid then heartbeat_tick now w else ret () w)"

definition step :: "'u event \<Rightarrow> 'u channel \<Rightarrow> 'u channel" where
  "step e w = snd (perform e w)"

fun run :: "'u event list \<Rightarrow> 'u channel \<Rightarrow> 'u channel" where
  "run [] w = w"
| "run (e # es) w = run es (step e w)"

section \<open>Auxiliary definitions for the proofs\<close>

text \<open>
  What \<open>getCacheStats\<close> reports for one key of a storage whose reads succeed: one entry
  when the key is namespaced and holds a cache item, none otherwise.
\<close>

definition stat_of :: "(stored \<Rightarrow> nat) \<Rightarrow> int \<Rightarrow> (string \<times> stored) list \<Rightarrow> string \<Rightarrow> entry_stat list" where
  "stat_of len now es key =
     (if startsWith key ''pyperf_'' then
        (case map_of es key of
           Some (Serialised (PItem c)) \<Rightarrow> [stats_entry len now key (Serialised (PItem c)) c]
         | _ \<Rightarrow> [])
      else [])"

text \<open>Concrete browsers and stores on which the theorems are run.\<close>

definition window0 :: window where
  "window0 = \<lparr>entries = [], getItem_throws = (\<lambda>_. False), setItem_throws = (\<lambda>_ _. False),
     removeItem_throws = (\<lambda>_. False), keys_throws = False, console = []\<rparr>"

definition payload :: json where
  "payload = JObj [(''x'', JNum 1)]"

definition written :: window where
  "written = window0\<lparr>entries := [(''pyperf_a'', Serialised (PItem \<lparr>data = payload, timestamp = 0, ttl = 1000\<rparr>))]\<rparr>"

definition broken :: window where
  "broken = \<lparr>entries = [(''pyperf_dashboard'', Malformed ''{'')], getItem_throws = (\<lambda>_. False),
     setItem_throws = (\<lambda>_ _. True), removeItem_throws = (\<lambda>_. True), keys_throws = False,
     console = []\<rparr>"

definition invalid :: window where
  "invalid = window0\<lparr>entries := [(''pyperf_dashboard'', Malformed ''{'')]\<rparr>"

definition app0 :: app where
  "app0 = \<lparr>entries =
       [(''pyperf_dashboard'', Serialised (PItem \<lparr>data = payload, timestamp = 0, ttl = 300000\<rparr>)),
        (''pyperf_host_metrics_web1_24h'',
           Serialised (PItem \<lparr>data = payload, timestamp = 0, ttl = 180000\<rparr>))],
     getItem_throws = (\<lambda>_. False), setItem_throws = (\<lambda>_ _. False),
     removeItem_throws = (\<lambda>_. False), keys_throws = False, console = [],
     dashboardData = JObj [(''total_hosts'', JNum 0), (''total_records'', JNum 0),
                           (''hosts_summary'', JArr [])],
     currentHost = JNull, currentHostMetrics = JNull, isLoadingDashboard = False,
     isLoadingHostDetail = False, dashboardError = JNull, hostDetailError = JNull,
     lastUpdate = JNull, usingCachedData = False, api_calls = []\<rparr>"

definition dashboard_only :: app where
  "dashboard_only = app0\<lparr>entries :=
     [(''pyperf_dashboard'', Serialised (PItem \<lparr>data = payload, timestamp = 0, ttl = 300000\<rparr>))]\<rparr>"

text \<open>
  What \<open>emit\<close> leaves behind: the subscriber's state and the console after the
  callbacks have run in order, the ones that threw having been logged.
\<close>

fun deliver :: "string \<Rightarrow> json \<Rightarrow> 'u callback list \<Rightarrow> 'u \<times> string list \<Rightarrow> 'u \<times> string list" where
  "deliver event d [] (u, logs) = (u, logs)"
| "deliver event d (c # cs) (u, logs) =
     deliver event d cs
       (fst (snd (cb_run c d u)),
        if fst (cb_run c d u) = None then logs else logs @ [handler_error event])"

text \<open>
  A request leaves an event alone when it is not a call of \<open>off\<close> for that event; a
  callback keeps an event when every call it makes while it runs leaves the event alone.
\<close>

fun leaves :: "string \<Rightarrow> 'u request \<Rightarrow> bool" where
  "leaves event (Calls_on e c) = True"
| "leaves event (Calls_off e i) = (e \<noteq> event)"

definition keeps :: "string \<Rightarrow> 'u callback \<Rightarrow> bool" where
  "keeps event c = (\<forall>d u. list_all (leaves event) (snd (snd (cb_run c d u))))"

text \<open>
  A transport is alive until the browser has reported its close. A channel is steady when
  at most one transport is alive, no reconnect timer is pending while a transport is
  alive, and a pending reconnect timer is the one that \<open>reconnectInterval\<close> holds. The
  automatic events are the ones that are not a call of \<open>connect\<close> or \<open>disconnect\<close> and
  not a successful open. The budget of a channel bounds the reconnects it can still
  schedule by itself; the view of a channel is what the budget depends on.
\<close>

definition alive :: "'u channel \<Rightarrow> nat \<Rightarrow> bool" where
  "alive w sid = (ready w sid \<noteq> CLOSED)"

definition steady :: "'u channel \<Rightarrow> bool" where
  "steady w =
     ((\<forall>s1 s2. alive w s1 \<and> alive w s2 \<longrightarrow> s1 = s2) \<and>
      (\<forall>s t. alive w s \<longrightarrow> \<not> pending w t) \<and>
      (\<forall>t. pending w t \<longrightarrow> reconnectInterval w = Some t))"

fun automatic :: "'u event \<Rightarrow> bool" where
  "automatic (Call_connect url protocols) = False"
| "automatic Call_disconnect = False"
| "automatic (Opens sid) = False"
| "automatic e = True"

definition budget :: "'u channel \<Rightarrow> nat" where
  "budget w =
     (if \<exists>s. alive w s then maxReconnectAttempts - reconnectAttempts w
      else if \<exists>t. pending w t then maxReconnectAttempts - Suc (reconnectAttempts w)
      else 0)"

definition view :: "'u channel \<Rightarrow> (nat \<Rightarrow> bool) \<times> (nat \<Rightarrow> bool) \<times> nat \<times> nat \<times> nat option" where
  "view w = (alive w, pending w, length (timeouts w), reconnectAttempts w, reconnectInterval w)"

text \<open>
  Concrete channels: a new one, one that is connecting, one that is open; a run of six
  unclean closes, each followed by the reconnect timer it scheduled; the same run with a
  \<open>disconnect\<close> before the sixth close, a run with a call of \<open>connect\<close> while the first
  reconnect timer is pending, and a run of two closes in a row; two subscribers, the
  first of which throws, and one that unsubscribes itself when called; a channel with a
  heartbeat, a pending reconnect timer and a connecting transport; and a channel on which
  \<open>connect\<close> was called again, first before and then after the close of a disconnected
  transport was reported.
\<close>

definition fresh :: "nat list channel" where
  "fresh = WebSocketService ''https:'' ''example.org'' (\<lambda>_. False) []"

definition connecting :: "nat list channel" where
  "connecting = run [Call_connect ''/ws/dashboard/'' []] fresh"

definition opened :: "nat list channel" where
  "opened = run [Opens 0] connecting"

definition storm :: "nat list event list" where
  "storm = [Closes 0 1006 [], Timeout_fires 0, Closes 1 1006 [], Timeout_fires 1,
            Closes 2 1006 [], Timeout_fires 2, Closes 3 1006 [], Timeout_fires 3,
            Closes 4 1006 [], Timeout_fires 4, Closes 5 1006 [], Timeout_fires 5]"

definition after_disconnect :: "nat list event list" where
  "after_disconnect =
     [Closes 0 1006 [], Timeout_fires 0, Closes 1 1006 [], Timeout_fires 1,
      Closes 2 1006 [], Timeout_fires 2, Closes 3 1006 [], Timeout_fires 3,
      Closes 4 1006 [], Timeout_fires 4,
      Call_disconnect, Closes 5 1006 [], Timeout_fires 5]"

definition hasty :: "nat list event list" where
  "hasty =
     [Closes 0 1006 [], Call_connect ''/ws/dashboard/'' [], Closes 1 1006 [], Timeout_fires 1,
      Closes 2 1006 [], Timeout_fires 2, Closes 3 1006 [], Timeout_fires 3,
      Closes 4 1006 [], Timeout_fires 4, Closes 5 1006 []]"

definition doubled :: "nat list event list" where
  "doubled =
     [Closes 1 1006 [], Closes 2 1006 [], Timeout_fires 1,
      Closes 3 1006 [], Timeout_fires 2, Closes 4 1006 [], Timeout_fires 3,
      Closes 5 1006 [], Timeout_fires 4, Closes 6 1006 []]"

definition first_handler :: "nat list callback" where
  "first_handler = Callback 1 (\<lambda>d u. (Some UserError, u @ [1], []))"

definition second_handler :: "nat list callback" where
  "second_handler = Callback 2 (\<lambda>d u. (None, u @ [2], []))"

definition leaving_handler :: "nat list callback" where
  "leaving_handler = Callback 1 (\<lambda>d u. (None, u @ [1], [Calls_off ''metrics_update'' 1]))"

definition two_subscribers :: "nat list channel" where
  "two_subscribers =
     run [Call_on ''metrics_update'' leaving_handler, Call_on ''metrics_update'' second_handler]
       fresh"

definition subscribed :: "nat list channel" where
  "subscribed = snd (on ''metrics_update'' first_handler fresh)"

definition beating :: "nat list channel" where
  "beating = run [Call_startHeartbeat 30000, Closes 0 1006 [], Call_connect ''/ws/dashboard/'' []]
               opened"

definition raced :: "nat list channel" where
  "raced = run [Call_disconnect, Call_connect ''/ws/dashboard/'' [], Closes 0 1000 [],
                Call_connect ''/ws/dashboard/'' []] opened"

section \<open>Properties of the cache\<close>

lemmas js_defs = ret_def throw_def bind_def try_catch_def modify_def gets_def

lemma stats_visit_ok:
  assumes "\<not> getItem_throws w key" "map_of (entries w) key \<noteq> None"
  shows "\<exists>s'. stats_visit len now key (s, w) = (Inr (), (s', w)) \<and>
           stat_entries s' = stat_entries s @ stat_of len now (entries w) key"
  using assms
  by (auto simp: stats_visit_def stat_of_def on_window_def on_local_def getItem_def JSON_parse_def
      item_of_def js_defs split: option.splits stored.splits parsed.splits)

lemma stats_scan:
  assumes "\<forall>key. \<not> getItem_throws w key" "\<forall>key \<in> set keys. map_of (entries w) key \<noteq> None"
  shows "\<exists>s'. forEach keys (stats_visit len now) (s, w) = (Inr (), (s', w)) \<and>
           stat_entries s' = stat_entries s @ concat (map (stat_of len now (entries w)) keys)"
  using assms
proof (induction keys arbitrary: s)
  case Nil
  then show ?case by (simp add: ret_def)
next
  case (Cons key keys)
  from Cons.prems obtain s1 where
    1: "stats_visit len now key (s, w) = (Inr (), (s1, w))"
    and 2: "stat_entries s1 = stat_entries s @ stat_of len now (entries w) key"
    using stats_visit_ok[of w key len now s] by auto
  from Cons.IH[of s1] Cons.prems obtain s' where
    3: "forEach keys (stats_visit len now) (s1, w) = (Inr (), (s', w))"
    and 4: "stat_entries s' = stat_entries s1 @ concat (map (stat_of len now (entries w)) keys)"
    by auto
  show ?case using 1 2 3 4 by (simp add: bind_def)
qed

lemma getCacheStats_entries:
  assumes "\<not> keys_throws w" "\<forall>key. \<not> getItem_throws w key"
  shows "getCacheStats len now w = (Inr s, w') \<Longrightarrow>
         stat_entries s = concat (map (stat_of len now (entries w)) (map fst (entries w)))"
proof -
  assume a: "getCacheStats len now w = (Inr s, w')"
  have k: "\<forall>key \<in> set (map fst (entries w)). map_of (entries w) key \<noteq> None"
    by (auto simp: map_of_eq_None_iff)
  obtain s' where
    3: "forEach (map fst (entries w)) (stats_visit len now)
          (\<lparr>totalEntries = length (entries w), pyperfEntries = 0, totalSize = 0, stat_entries = []\<rparr>, w) = (Inr (), (s', w))"
    and 4: "stat_entries s' = concat (map (stat_of len now (entries w)) (map fst (entries w)))"
    using stats_scan[OF assms(2) k, of len now "\<lparr>totalEntries = length (entries w), pyperfEntries = 0, totalSize = 0, stat_entries = []\<rparr>"]
    by auto
  from a 3 assms(1) have "s = s'"
    by (simp add: getCacheStats_def js_defs on_window_def on_local_def Object_keys_def)
  with 4 show ?thesis by simp
qed

lemma getCacheStats_total: "\<exists>s w'. getCacheStats len now w = (Inr s, w')"
proof -
  obtain r s w' where "try_catch
            (bind (on_window Object_keys) (\<lambda>keys.
             bind (on_local (\<lambda>s. s\<lparr>totalEntries := length keys\<rparr>)) (\<lambda>_.
             forEach keys (stats_visit len now))))
            (\<lambda>error. on_window (console_warn ''Failed to get cache stats:''))
            (\<lparr>totalEntries = 0, pyperfEntries = 0, totalSize = 0, stat_entries = []\<rparr>, w) = (r, (s, w'))"
    using prod_cases3 by blast
  then have "getCacheStats len now w = (Inr s, w')"
    unfolding getCacheStats_def by (simp only: prod.case)
  then show ?thesis by blast
qed


lemma stat_of_key: "e \<in> set (stat_of len now es key) \<Longrightarrow> st_key e = key"
  by (cases "map_of es key" rule: option.exhaust; cases "startsWith key ''pyperf_''")
     (auto simp: stat_of_def stats_entry_def Let_def split: stored.splits parsed.splits)

lemma setCache_ok:
  assumes "\<not> setItem_throws w k (JSON_stringify \<lparr>data = v, timestamp = t0, ttl = t\<rparr>)"
  shows "setCache k v t t0 w =
    (Inr (), w\<lparr>entries := AList.update k (Serialised (PItem \<lparr>data = v, timestamp = t0, ttl = t\<rparr>)) (entries w)\<rparr>)"
  using assms by (simp add: setCache_def setCache_try_def setItem_def JSON_stringify_def js_defs)

lemma getCache_item:
  assumes "map_of (entries w) k = Some (Serialised (PItem c))" "\<not> getItem_throws w k"
  shows "getCache k now w =
     (if now - timestamp c > ttl c
      then (if removeItem_throws w k
            then (Inr JNull, w\<lparr>console := console w @ [''Failed to get cache:'']\<rparr>)
            else (Inr JNull, w\<lparr>entries := AList.delete k (entries w)\<rparr>))
      else (Inr (data c), w))"
  using assms
  by (simp add: getCache_def getCache_try_def getItem_def removeItem_def JSON_parse_def item_of_def
      console_warn_def js_defs)

lemma setCache_window0: "setCache ''pyperf_a'' payload 1000 0 window0 = (Inr (), written)"
  by (simp add: setCache_ok window0_def written_def)

text \<open>
  C1 (as amended). After \<open>setCache k v t\<close> at time \<open>t0\<close> on a backend whose operations
  on \<open>k\<close> do not throw, \<open>getCache k\<close> returns \<open>v\<close> as long as the age \<open>now - t0\<close>
  does not exceed \<open>t\<close>. Once the age exceeds \<open>t\<close>, \<open>getCache k\<close> returns \<open>null\<close> and
  removes the entry: expiry is a hard filter at read time. Before such a read, and when
  \<open>k\<close> carries the prefix \<open>pyperf_\<close> and the storage can be listed and read,
  \<open>getCacheStats\<close> reports an entry for \<open>k\<close>, and the \<open>expired\<close> flag of every entry it
  reports for \<open>k\<close> is true.
\<close>

theorem write_then_read:
  assumes "setCache k v t t0 w = (r, w1)"
    and "\<not> setItem_throws w k (JSON_stringify \<lparr>data = v, timestamp = t0, ttl = t\<rparr>)"
    and "\<not> getItem_throws w k" and "\<not> removeItem_throws w k"
  shows "(now - t0 \<le> t \<longrightarrow> getCache k now w1 = (Inr v, w1)) \<and>
         (now - t0 > t \<longrightarrow>
            getCache k now w1 = (Inr JNull, w1\<lparr>entries := AList.delete k (entries w1)\<rparr>) \<and>
            (startsWith k ''pyperf_'' \<and> \<not> keys_throws w \<and> (\<forall>k'. \<not> getItem_throws w k') \<longrightarrow>
               (\<exists>s w2. getCacheStats len now w1 = (Inr s, w2) \<and>
                  (\<exists>e \<in> set (stat_entries s). st_key e = k) \<and>
                  (\<forall>e \<in> set (stat_entries s). st_key e = k \<longrightarrow> st_expired e))))"
proof -
  let ?c = "\<lparr>data = v, timestamp = t0, ttl = t\<rparr>"
  have w1: "w1 = w\<lparr>entries := AList.update k (Serialised (PItem ?c)) (entries w)\<rparr>"
    using assms(1) setCache_ok[OF assms(2)] by simp
  have m: "map_of (entries w1) k = Some (Serialised (PItem ?c))"
    by (simp add: w1 update_conv')
  have g: "\<not> getItem_throws w1 k" and rm: "\<not> removeItem_throws w1 k"
    using assms(3,4) by (simp_all add: w1)
  have read: "getCache k now w1 =
      (if now - t0 > t then (Inr JNull, w1\<lparr>entries := AList.delete k (entries w1)\<rparr>) else (Inr v, w1))"
    using getCache_item[OF m g, of now] rm by simp
  have stats: "\<exists>s w2. getCacheStats len now w1 = (Inr s, w2) \<and>
                  (\<exists>e \<in> set (stat_entries s). st_key e = k) \<and>
                  (\<forall>e \<in> set (stat_entries s). st_key e = k \<longrightarrow> st_expired e)"
    if exp: "now - t0 > t" and ns: "startsWith k ''pyperf_''" and nk: "\<not> keys_throws w"
      and ng: "\<forall>k'. \<not> getItem_throws w k'"
  proof -
    obtain s w2 where st: "getCacheStats len now w1 = (Inr s, w2)"
      using getCacheStats_total by blast
    have nk1: "\<not> keys_throws w1" and ng1: "\<forall>k'. \<not> getItem_throws w1 k'"
      using nk ng by (simp_all add: w1)
    have es: "stat_entries s = concat (map (stat_of len now (entries w1)) (map fst (entries w1)))"
      using getCacheStats_entries[OF nk1 ng1 st] .
    have sk: "stat_of len now (entries w1) k = [stats_entry len now k (Serialised (PItem ?c)) ?c]"
      using m ns by (simp add: stat_of_def)
    have kin: "k \<in> set (map fst (entries w1))"
      using m by (metis map_of_eq_None_iff option.distinct(1) set_map)
    have ex: "\<exists>e \<in> set (stat_entries s). st_key e = k"
    proof -
      have "stats_entry len now k (Serialised (PItem ?c)) ?c \<in> set (stat_entries s)"
        unfolding es using kin sk by (force simp del: stat_of_def)
      moreover have "st_key (stats_entry len now k (Serialised (PItem ?c)) ?c) = k"
        by (simp add: stats_entry_def Let_def)
      ultimately show ?thesis by blast
    qed
    have all: "\<forall>e \<in> set (stat_entries s). st_key e = k \<longrightarrow> st_expired e"
    proof (intro ballI impI)
      fix e assume e: "e \<in> set (stat_entries s)" and ek: "st_key e = k"
      from e obtain key where "e \<in> set (stat_of len now (entries w1) key)"
        by (auto simp: es)
      with ek have "e \<in> set (stat_of len now (entries w1) k)"
        using stat_of_key by blast
      then show "st_expired e" using exp by (simp add: sk stats_entry_def Let_def)
    qed
    from st ex all show ?thesis by blast
  qed
  show ?thesis using read stats by auto
qed

text \<open>
  C1 as the specification states it fails: an entry written with a time to live of 1000 ms
  and read 1100 ms later is not returned.
\<close>

theorem read_after_expiry_counterexample:
  "setCache ''pyperf_a'' payload 1000 0 window0 = (Inr (), written) \<and>
   fst (getCache ''pyperf_a'' 1100 written) \<noteq> Inr payload"
  by (simp add: setCache_window0)
     (simp add: getCache_def getCache_try_def getItem_def removeItem_def JSON_parse_def item_of_def
       js_defs written_def window0_def payload_def)

theorem write_then_read_witness:
  "getCache ''pyperf_a'' 1000 written = (Inr payload, written) \<and>
   getCache ''pyperf_a'' 1001 written = (Inr JNull, written\<lparr>entries := []\<rparr>) \<and>
   (\<exists>s w2. getCacheStats (\<lambda>_. 0) 1001 written = (Inr s, w2) \<and>
      (\<exists>e \<in> set (stat_entries s). st_key e = ''pyperf_a'') \<and>
      (\<forall>e \<in> set (stat_entries s). st_key e = ''pyperf_a'' \<longrightarrow> st_expired e))"
proof -
  have h2: "\<not> setItem_throws window0 ''pyperf_a'' (JSON_stringify \<lparr>data = payload, timestamp = 0, ttl = 1000\<rparr>)"
    and h3: "\<not> getItem_throws window0 ''pyperf_a''"
    and h4: "\<not> removeItem_throws window0 ''pyperf_a''"
    and h5: "\<not> keys_throws window0" and h6: "\<forall>k'. \<not> getItem_throws window0 k'"
    and h7: "startsWith ''pyperf_a'' ''pyperf_''"
    by (simp_all add: window0_def startsWith_def)
  have d: "written\<lparr>entries := AList.delete ''pyperf_a'' (entries written)\<rparr> = written\<lparr>entries := []\<rparr>"
    by (simp add: written_def)
  from write_then_read[OF setCache_window0 h2 h3 h4, of 1000 "\<lambda>_. 0"]
       write_then_read[OF setCache_window0 h2 h3 h4, of 1001 "\<lambda>_. 0"] h5 h6 h7 d
  show ?thesis by simp
qed

text \<open>
  C8. No cache operation lets an exception escape: \<open>setCache\<close>, \<open>getCache\<close> and
  \<open>clearCache\<close> always return normally. Whenever the \<open>try\<close> block of one of them throws
  (the backend's \<open>getItem\<close>, \<open>setItem\<close> or \<open>removeItem\<close> fails, or the stored text
  does not parse), the operation only writes a warning to the console and leaves the
  storage as it was; \<open>getCache\<close> then returns \<open>null\<close>, a cache miss.
\<close>

theorem cache_absorbs_storage_failures:
  "(\<exists>w'. setCache key d t now w = (Inr (), w')) \<and>
   (\<exists>v w'. getCache key now w = (Inr v, w')) \<and>
   (\<exists>w'. clearCache key w = (Inr (), w')) \<and>
   (\<forall>e. fst (setCache_try key d t now w) = Inl e \<longrightarrow>
      setCache key d t now w = (Inr (), w\<lparr>console := console w @ [''Failed to set cache:'']\<rparr>)) \<and>
   (\<forall>e. fst (getCache_try key now w) = Inl e \<longrightarrow>
      getCache key now w = (Inr JNull, w\<lparr>console := console w @ [''Failed to get cache:'']\<rparr>)) \<and>
   (\<forall>e. fst (removeItem key w) = Inl e \<longrightarrow>
      clearCache key w = (Inr (), w\<lparr>console := console w @ [''Failed to clear cache:'']\<rparr>))"
  by (auto simp: setCache_def setCache_try_def getCache_def getCache_try_def clearCache_def
      setItem_def getItem_def removeItem_def JSON_parse_def item_of_def console_warn_def js_defs
      split: option.splits stored.splits parsed.splits if_splits)

theorem cache_absorbs_storage_failures_witness:
  "setCache ''pyperf_dashboard'' payload 1000 0 broken =
     (Inr (), broken\<lparr>console := [''Failed to set cache:'']\<rparr>) \<and>
   getCache ''pyperf_dashboard'' 0 broken =
     (Inr JNull, broken\<lparr>console := [''Failed to get cache:'']\<rparr>) \<and>
   clearCache ''pyperf_dashboard'' broken =
     (Inr (), broken\<lparr>console := [''Failed to clear cache:'']\<rparr>)"
proof -
  have s: "fst (setCache_try ''pyperf_dashboard'' payload 1000 0 broken) = Inl DOMException"
    by (simp add: setCache_try_def setItem_def broken_def)
  have g: "fst (getCache_try ''pyperf_dashboard'' 0 broken) = Inl SyntaxError"
    by (simp add: getCache_try_def getItem_def JSON_parse_def js_defs broken_def)
  have r: "fst (removeItem ''pyperf_dashboard'' broken) = Inl DOMException"
    by (simp add: removeItem_def broken_def)
  have c: "console broken = []" by (simp add: broken_def)
  from cache_absorbs_storage_failures[where key = "''pyperf_dashboard''" and d = payload and t = 1000 and now = 0 and w = broken] s g r c
  show ?thesis by simp
qed

section \<open>Properties of the cached fetches\<close>

lemma fetch_hit:
  fixes a :: app
  assumes "map_of (entries a) key = Some (Serialised (PItem c))" "\<not> getItem_throws a key"
    "now - timestamp c \<le> ttl c"
  shows "getCache key now a = (Inr (data c), a)"
  using getCache_item[OF assms(1,2), of now] assms(3) by simp

lemma key_web1: "getHostMetricsCacheKey ''web1'' 24 = ''pyperf_host_metrics_web1_24h''"
  by (simp add: getHostMetricsCacheKey_def String_of_def)

text \<open>
  C2 (as amended). When the cache holds an unexpired entry with truthy data under the key
  of the request, the fetch action without forced refresh puts the cached value into the
  store and returns at once, without waiting for the API, and it hands exactly one request
  to the API. This holds for \<open>fetchDashboardData\<close> with the dashboard's key, and for
  \<open>fetchHostMetrics\<close> with the key of the host and the hours, each for itself.
\<close>

theorem fetch_with_live_entry:
  "(\<not> getItem_throws a getDashboardCacheKey \<and>
    map_of (entries a) getDashboardCacheKey = Some (Serialised (PItem c)) \<and>
    now - timestamp c \<le> ttl c \<and> truthy (data c) \<longrightarrow>
      fetchDashboardData False now a =
        (Inr Returned,
         a\<lparr>dashboardData := data c, usingCachedData := True, lastUpdate := JNum now,
           dashboardError := JNull, api_calls := api_calls a @ [GetDashboardData]\<rparr>)) \<and>
   (\<not> getItem_throws a (getHostMetricsCacheKey hostname hours) \<and>
    map_of (entries a) (getHostMetricsCacheKey hostname hours) = Some (Serialised (PItem c')) \<and>
    now - timestamp c' \<le> ttl c' \<and> truthy (data c') \<longrightarrow>
      fetchHostMetrics hostname hours False now a =
        (Inr Returned,
         a\<lparr>currentHost := JStr hostname, currentHostMetrics := data c', usingCachedData := True,
           hostDetailError := JNull,
           api_calls := api_calls a @ [GetHostMetrics hostname hours]\<rparr>))"
proof -
  have d: "fetchDashboardData False now a =
           (Inr Returned,
            a\<lparr>dashboardData := data c, usingCachedData := True, lastUpdate := JNum now,
              dashboardError := JNull, api_calls := api_calls a @ [GetDashboardData]\<rparr>)"
    if h: "\<not> getItem_throws a getDashboardCacheKey"
      "map_of (entries a) getDashboardCacheKey = Some (Serialised (PItem c))"
      "now - timestamp c \<le> ttl c" "truthy (data c)"
  proof -
    have 1: "getCache getDashboardCacheKey now a = (Inr (data c), a)"
      using fetch_hit[OF h(2,1,3)] .
    show ?thesis
      using 1 h(4)
      by (simp add: fetchDashboardData_def fetchDashboardDataFromAPI_call_def js_defs Let_def)
  qed
  have m: "fetchHostMetrics hostname hours False now a =
           (Inr Returned,
            a\<lparr>currentHost := JStr hostname, currentHostMetrics := data c', usingCachedData := True,
              hostDetailError := JNull,
              api_calls := api_calls a @ [GetHostMetrics hostname hours]\<rparr>)"
    if h: "\<not> getItem_throws a (getHostMetricsCacheKey hostname hours)"
      "map_of (entries a) (getHostMetricsCacheKey hostname hours) = Some (Serialised (PItem c'))"
      "now - timestamp c' \<le> ttl c'" "truthy (data c')"
  proof -
    let ?a' = "a\<lparr>currentHost := JStr hostname\<rparr>"
    have 2: "getCache (getHostMetricsCacheKey hostname hours) now ?a' = (Inr (data c'), ?a')"
      using fetch_hit[of ?a' "getHostMetricsCacheKey hostname hours" c' now] h(1,2,3) by simp
    show ?thesis
      using 2 h(4)
      by (simp add: fetchHostMetrics_def fetchHostMetricsFromAPI_call_def js_defs Let_def)
  qed
  from d m show ?thesis by blast
qed

text \<open>
  C2 as the specification states it fails: with a live entry in the cache the loader is
  still invoked.
\<close>

theorem fetch_invokes_loader_counterexample:
  "api_calls app0 = [] \<and>
   fst (fetchDashboardData False 1000 app0) = Inr Returned \<and>
   api_calls (snd (fetchDashboardData False 1000 app0)) = [GetDashboardData]"
  by (simp add: fetchDashboardData_def fetchDashboardDataFromAPI_call_def getDashboardCacheKey_def
      getCache_def getCache_try_def getItem_def JSON_parse_def item_of_def js_defs Let_def
      app0_def payload_def)

theorem fetch_with_live_entry_witness:
  "entries dashboard_only =
     [(''pyperf_dashboard'', Serialised (PItem \<lparr>data = payload, timestamp = 0, ttl = 300000\<rparr>))] \<and>
   fetchDashboardData False 1000 dashboard_only =
     (Inr Returned,
      dashboard_only\<lparr>dashboardData := payload, usingCachedData := True, lastUpdate := JNum 1000,
        dashboardError := JNull, api_calls := [GetDashboardData]\<rparr>) \<and>
   fetchHostMetrics ''web1'' 24 False 1000 app0 =
     (Inr Returned,
      app0\<lparr>currentHost := JStr ''web1'', currentHostMetrics := payload, usingCachedData := True,
        hostDetailError := JNull, api_calls := [GetHostMetrics ''web1'' 24]\<rparr>)"
proof -
  let ?c = "\<lparr>data = payload, timestamp = 0, ttl = 300000\<rparr>"
  let ?c' = "\<lparr>data = payload, timestamp = 0, ttl = 180000\<rparr>"
  have e: "entries dashboard_only = [(''pyperf_dashboard'', Serialised (PItem ?c))]"
    by (simp add: dashboard_only_def)
  have 1: "\<not> getItem_throws dashboard_only getDashboardCacheKey \<and>
      map_of (entries dashboard_only) getDashboardCacheKey = Some (Serialised (PItem ?c)) \<and>
      1000 - timestamp ?c \<le> ttl ?c \<and> truthy (data ?c)"
    by (simp add: dashboard_only_def app0_def getDashboardCacheKey_def payload_def)
  have 2: "\<not> getItem_throws app0 (getHostMetricsCacheKey ''web1'' 24) \<and>
      map_of (entries app0) (getHostMetricsCacheKey ''web1'' 24) = Some (Serialised (PItem ?c')) \<and>
      1000 - timestamp ?c' \<le> ttl ?c' \<and> truthy (data ?c')"
    by (simp add: key_web1 app0_def payload_def)
  have a: "api_calls app0 = []" "api_calls dashboard_only = []"
    by (simp_all add: app0_def dashboard_only_def)
  from fetch_with_live_entry[where a = dashboard_only and c = ?c and now = 1000] 1
  have d: "fetchDashboardData False 1000 dashboard_only =
     (Inr Returned,
      dashboard_only\<lparr>dashboardData := payload, usingCachedData := True, lastUpdate := JNum 1000,
        dashboardError := JNull, api_calls := [GetDashboardData]\<rparr>)"
    using a by simp
  from fetch_with_live_entry[where a = app0 and c' = ?c' and now = 1000 and hostname = "''web1''"
      and hours = 24] 2
  have m: "fetchHostMetrics ''web1'' 24 False 1000 app0 =
     (Inr Returned,
      app0\<lparr>currentHost := JStr ''web1'', currentHostMetrics := payload, usingCachedData := True,
        hostDetailError := JNull, api_calls := [GetHostMetrics ''web1'' 24]\<rparr>)"
    using a by simp
  from e d m show ?thesis by simp
qed

text \<open>
  What the request does when it settles with a payload, on a backend that takes the
  write: the store and the cache entry are overwritten with the fresh data.
\<close>

lemma refresh_overwrites:
  assumes "\<not> setItem_throws a cacheKey
             (JSON_stringify \<lparr>data = d, timestamp = now, ttl = DEFAULT_CACHE_TTL\<rparr>)"
  shows "fetchDashboardDataFromAPI_resume cacheKey (Inr d) now a =
     (Inr (),
      a\<lparr>dashboardData := d, lastUpdate := JNum now, usingCachedData := False,
        entries := AList.update cacheKey
          (Serialised (PItem \<lparr>data = d, timestamp = now, ttl = DEFAULT_CACHE_TTL\<rparr>)) (entries a),
        isLoadingDashboard := False\<rparr>)"
proof -
  let ?a = "a\<lparr>dashboardData := d, lastUpdate := JNum now, usingCachedData := False\<rparr>"
  have "\<not> setItem_throws ?a cacheKey
             (JSON_stringify \<lparr>data = d, timestamp = now, ttl = DEFAULT_CACHE_TTL\<rparr>)"
    using assms by simp
  from setCache_ok[OF this] show ?thesis
    by (simp add: fetchDashboardDataFromAPI_resume_def try_finally_def js_defs)
qed

section \<open>The cleanup of expired entries\<close>

text \<open>
  The scenario of the specification: an entry written with a time to live of 1000 ms is
  removed by a cleanup 1100 ms later, which reports one entry; a read then finds nothing.
\<close>

lemma cleanup_after_expiry:
  "fst (cleanupExpiredCache 1100 written) = Inr 1 \<and>
   entries (snd (cleanupExpiredCache 1100 written)) = [] \<and>
   fst (getCache ''pyperf_a'' 1100 (snd (cleanupExpiredCache 1100 written))) = Inr JNull"
  by code_simp

text \<open>
  C9 (a defect of the code). On a storage whose only namespaced entry holds text that does
  not parse, \<open>cleanupExpiredCache\<close> reports one cleaned entry, although no entry has
  expired and none has been removed: the storage is left as it was.
\<close>

theorem cleanup_counts_unremoved_entry:
  "fst (cleanupExpiredCache 1000 invalid) = Inr 1 \<and>
   entries (snd (cleanupExpiredCache 1000 invalid)) = entries invalid \<and>
   entries invalid = [(''pyperf_dashboard'', Malformed ''{'')] \<and>
   console (snd (cleanupExpiredCache 1000 invalid)) =
     [''Failed to get cache:'', ''Cleaned up 1 expired cache entries'']"
  by code_simp

section \<open>Properties of the channel\<close>

subsection \<open>Sequencing\<close>

lemmas ws_defs = ret_def throw_def bind_def try_catch_def modify_def gets_def ws_log_def
  on_transport_def clearTimeout_def clearInterval_def socket_send_def socket_close_def
  settle_def set_readyState_def

lemmas ws_small = ret_def throw_def modify_def gets_def ws_log_def on_transport_def
  clearTimeout_def clearInterval_def socket_send_def socket_close_def set_readyState_def

lemma bind_via:
  "fst (m w) = Inr x \<Longrightarrow> bind m f w = f x (snd (m w))"
  by (cases "m w") (simp add: bind_def)

lemma bind_thrown:
  "fst (m w) = Inl e \<Longrightarrow> bind m f w = (Inl e, snd (m w))"
  by (cases "m w") (simp add: bind_def)

lemma try_catch_via:
  "try_catch m h w =
     (case fst (m w) of Inl e \<Rightarrow> h e (snd (m w)) | Inr x \<Rightarrow> (Inr x, snd (m w)))"
  by (cases "m w") (simp add: try_catch_def split: sum.splits)

subsection \<open>Dispatch to subscribers\<close>

text \<open>What a callback does to the channel: its calls of \<open>on\<close> and \<open>off\<close> change the listeners.\<close>

lemma same_listeners: "\<exists>L. w = w\<lparr>listeners := L\<rparr>"
  by (rule exI[of _ "listeners w"]) simp

lemma same_four:
  "\<exists>U I L C. w = w\<lparr>user := U, invoked := I, listeners := L, ws_console := C\<rparr>"
  by (rule exI[of _ "user w"], rule exI[of _ "invoked w"], rule exI[of _ "listeners w"],
      rule exI[of _ "ws_console w"]) simp

lemma perform_request_listeners:
  "\<exists>L. perform_request r w = (Inr (), w\<lparr>listeners := L\<rparr>)"
proof (cases r)
  case (Calls_on event c)
  then show ?thesis by (simp add: on_def modify_def) blast
next
  case (Calls_off event i)
  show ?thesis
  proof (cases "listeners w event")
    case None
    with Calls_off same_listeners[of w] show ?thesis by (simp add: off_def modify_def)
  next
    case (Some cbs)
    with Calls_off show ?thesis by (simp add: off_def modify_def) blast
  qed
qed

lemma requests_listeners:
  "\<exists>L. forEach rs perform_request w = (Inr (), w\<lparr>listeners := L\<rparr>)"
proof (induction rs arbitrary: w)
  case Nil
  show ?case using same_listeners[of w] by (simp add: ret_def)
next
  case (Cons r rs)
  obtain L where 1: "perform_request r w = (Inr (), w\<lparr>listeners := L\<rparr>)"
    using perform_request_listeners by blast
  obtain L' where 2: "forEach rs perform_request (w\<lparr>listeners := L\<rparr>) =
      (Inr (), w\<lparr>listeners := L, listeners := L'\<rparr>)"
    using Cons.IH by blast
  show ?case using 1 2 by (simp add: bind_def) blast
qed

lemma emit_one_changes:
  "\<exists>L. emit_one event d c w =
     (Inr (), w\<lparr>user := fst (snd (cb_run c d (user w))),
        invoked := invoked w @ [(event, cb_id c)],
        listeners := L,
        ws_console := (if fst (cb_run c d (user w)) = None then ws_console w
                       else ws_console w @ [handler_error event])\<rparr>)"
proof -
  obtain thrown u' rs where r: "cb_run c d (user w) = (thrown, u', rs)"
    using prod_cases3 by blast
  obtain L where
    "forEach rs perform_request (w\<lparr>user := u', invoked := invoked w @ [(event, cb_id c)]\<rparr>) =
       (Inr (), w\<lparr>user := u', invoked := invoked w @ [(event, cb_id c)], listeners := L\<rparr>)"
    using requests_listeners by blast
  then show ?thesis
    using r
    by (cases thrown) (auto simp: emit_one_def try_catch_def call_back_def ws_log_def modify_def)
qed

lemma emit_from_changes:
  "\<exists>U I L C. emit_from event d k n w =
     (Inr (), w\<lparr>user := U, invoked := I, listeners := L, ws_console := C\<rparr>)"
proof (induction n arbitrary: k w)
  case 0
  show ?case using same_four[of w] by (simp add: ret_def)
next
  case (Suc n)
  let ?round = "\<lambda>w. case listeners w event of
                  None \<Rightarrow> ret () w
                | Some cbs \<Rightarrow> if k < length cbs then emit_one event d (cbs ! k) w else ret () w"
  have "\<exists>U I L C. ?round w =
     (Inr (), w\<lparr>user := U, invoked := I, listeners := L, ws_console := C\<rparr>)"
  proof (cases "\<exists>cbs. listeners w event = Some cbs \<and> k < length cbs")
    case True
    then obtain cbs where c: "listeners w event = Some cbs" "k < length cbs" by blast
    from emit_one_changes[of event d "cbs ! k" w] c show ?thesis by auto
  next
    case False
    have "?round w = (Inr (), w)"
      using False by (auto simp: ret_def split: option.splits)
    then show ?thesis using same_four[of w] by simp
  qed
  then obtain U I L C where
    1: "?round w = (Inr (), w\<lparr>user := U, invoked := I, listeners := L, ws_console := C\<rparr>)"
    by blast
  obtain U' I' L' C' where
    2: "emit_from event d (Suc k) n
          (w\<lparr>user := U, invoked := I, listeners := L, ws_console := C\<rparr>) =
        (Inr (), w\<lparr>user := U, invoked := I, listeners := L, ws_console := C,
                   user := U', invoked := I', listeners := L', ws_console := C'\<rparr>)"
    using Suc.IH by blast
  have "emit_from event d k (Suc n) w =
        (Inr (), w\<lparr>user := U', invoked := I', listeners := L', ws_console := C'\<rparr>)"
    using 2 by (simp add: bind_def 1)
  then show ?case by blast
qed

lemma emit_changes:
  "\<exists>U I L C. emit event d w =
     (Inr (), w\<lparr>user := U, invoked := I, listeners := L, ws_console := C\<rparr>)"
proof (cases "listeners w event")
  case None
  then show ?thesis using same_four[of w] by (simp add: emit_def ret_def)
next
  case (Some cbs)
  with emit_from_changes[of event d 0 "length cbs" w] show ?thesis by (simp add: emit_def)
qed

lemma fst_emit [simp]: "fst (emit event d w) = Inr ()"
  using emit_changes[of event d w] by auto

lemma emit_fields [simp]:
  "socket (snd (emit event d w)) = socket w"
  "reconnectInterval (snd (emit event d w)) = reconnectInterval w"
  "reconnectAttempts (snd (emit event d w)) = reconnectAttempts w"
  "reconnectDelay (snd (emit event d w)) = reconnectDelay w"
  "isConnected (snd (emit event d w)) = isConnected w"
  "isConnecting (snd (emit event d w)) = isConnecting w"
  "heartbeatInterval (snd (emit event d w)) = heartbeatInterval w"
  "transports (snd (emit event d w)) = transports w"
  "timeouts (snd (emit event d w)) = timeouts w"
  "intervals (snd (emit event d w)) = intervals w"
  "location_protocol (snd (emit event d w)) = location_protocol w"
  "location_host (snd (emit event d w)) = location_host w"
  "constructor_throws (snd (emit event d w)) = constructor_throws w"
  using emit_changes[of event d w] by auto

text \<open>
  Callbacks that keep the event: the handlers registered when \<open>emit\<close> starts stay at the
  front of the listener array, every one of them is called, in order, and each one that
  throws is logged.
\<close>

lemma perform_request_front:
  assumes "leaves event r" "listeners w event = Some (cbs @ xs)"
  shows "\<exists>L ys. perform_request r w = (Inr (), w\<lparr>listeners := L\<rparr>) \<and> L event = Some (cbs @ ys)"
proof (cases r)
  case (Calls_on e c)
  let ?L = "(listeners w)(e \<mapsto> (case listeners w e of None \<Rightarrow> [] | Some cs \<Rightarrow> cs) @ [c])"
  have 1: "perform_request r w = (Inr (), w\<lparr>listeners := ?L\<rparr>)"
    using Calls_on by (simp add: on_def modify_def)
  have 2: "\<exists>ys. ?L event = Some (cbs @ ys)"
    using assms(2) by (cases "e = event") auto
  from 1 2 show ?thesis by blast
next
  case (Calls_off e i)
  then have ne: "e \<noteq> event" using assms(1) by simp
  show ?thesis
  proof (cases "listeners w e")
    case None
    have "perform_request r w = (Inr (), w\<lparr>listeners := listeners w\<rparr>)"
      using None Calls_off by (simp add: off_def modify_def)
    with assms(2) show ?thesis by blast
  next
    case (Some cs)
    let ?L = "(listeners w)(e \<mapsto> splice_first i cs)"
    have 1: "perform_request r w = (Inr (), w\<lparr>listeners := ?L\<rparr>)"
      using Some Calls_off by (simp add: off_def modify_def)
    have 2: "?L event = Some (cbs @ xs)" using ne assms(2) by simp
    from 1 2 show ?thesis by blast
  qed
qed

lemma requests_front:
  assumes "list_all (leaves event) rs" "listeners w event = Some (cbs @ xs)"
  shows "\<exists>L ys. forEach rs perform_request w = (Inr (), w\<lparr>listeners := L\<rparr>) \<and>
           L event = Some (cbs @ ys)"
  using assms
proof (induction rs arbitrary: w xs)
  case Nil
  have "forEach [] perform_request w = (Inr (), w\<lparr>listeners := listeners w\<rparr>)"
    by (simp add: ret_def)
  with Nil.prems(2) show ?case by blast
next
  case (Cons r rs)
  from Cons.prems have lr: "leaves event r" and lrs: "list_all (leaves event) rs" by simp_all
  obtain L ys where 1: "perform_request r w = (Inr (), w\<lparr>listeners := L\<rparr>)"
    and 2: "L event = Some (cbs @ ys)"
    using perform_request_front[OF lr Cons.prems(2)] by blast
  have "listeners (w\<lparr>listeners := L\<rparr>) event = Some (cbs @ ys)" using 2 by simp
  from Cons.IH[OF lrs this] obtain L' zs where
    3: "forEach rs perform_request (w\<lparr>listeners := L\<rparr>) =
          (Inr (), w\<lparr>listeners := L, listeners := L'\<rparr>)"
    and 4: "L' event = Some (cbs @ zs)"
    by blast
  have "forEach (r # rs) perform_request w = (Inr (), w\<lparr>listeners := L'\<rparr>)"
    using 1 3 by (simp add: bind_def)
  with 4 show ?case by blast
qed

lemma emit_one_front:
  assumes "keeps event c" "listeners w event = Some (cbs @ xs)"
  shows "\<exists>L ys. emit_one event d c w =
     (Inr (), w\<lparr>user := fst (snd (cb_run c d (user w))),
        invoked := invoked w @ [(event, cb_id c)],
        listeners := L,
        ws_console := (if fst (cb_run c d (user w)) = None then ws_console w
                       else ws_console w @ [handler_error event])\<rparr>) \<and>
     L event = Some (cbs @ ys)"
proof -
  obtain thrown u' rs where r: "cb_run c d (user w) = (thrown, u', rs)"
    using prod_cases3 by blast
  have lv: "list_all (leaves event) rs"
    using assms(1) r by (metis keeps_def snd_conv)
  let ?w = "w\<lparr>user := u', invoked := invoked w @ [(event, cb_id c)]\<rparr>"
  have "listeners ?w event = Some (cbs @ xs)" using assms(2) by simp
  from requests_front[OF lv this] obtain L ys where
    1: "forEach rs perform_request ?w = (Inr (), ?w\<lparr>listeners := L\<rparr>)"
    and 2: "L event = Some (cbs @ ys)"
    by blast
  have "emit_one event d c w =
     (Inr (), w\<lparr>user := fst (snd (cb_run c d (user w))),
        invoked := invoked w @ [(event, cb_id c)],
        listeners := L,
        ws_console := (if fst (cb_run c d (user w)) = None then ws_console w
                       else ws_console w @ [handler_error event])\<rparr>)"
    using r 1
    by (cases thrown) (simp_all add: emit_one_def try_catch_def call_back_def ws_log_def modify_def)
  with 2 show ?thesis by blast
qed

lemma emit_from_front:
  assumes "listeners w event = Some (cbs @ xs)" "\<forall>c \<in> set cbs. keeps event c"
    "k + n = length cbs"
  shows "\<exists>L ys. emit_from event d k n w =
   (Inr (), w\<lparr>user := fst (deliver event d (drop k cbs) (user w, ws_console w)),
      ws_console := snd (deliver event d (drop k cbs) (user w, ws_console w)),
      invoked := invoked w @ map (\<lambda>c. (event, cb_id c)) (drop k cbs),
      listeners := L\<rparr>) \<and>
   L event = Some (cbs @ ys)"
  using assms
proof (induction n arbitrary: k w xs)
  case 0
  have "drop k cbs = []" using "0.prems"(3) by simp
  then have "emit_from event d k 0 w =
   (Inr (), w\<lparr>user := fst (deliver event d (drop k cbs) (user w, ws_console w)),
      ws_console := snd (deliver event d (drop k cbs) (user w, ws_console w)),
      invoked := invoked w @ map (\<lambda>c. (event, cb_id c)) (drop k cbs),
      listeners := listeners w\<rparr>)"
    by (simp add: ret_def)
  with "0.prems"(1) show ?case by blast
next
  case (Suc n)
  let ?c = "cbs ! k"
  have k: "k < length cbs" using Suc.prems(3) by simp
  then have q: "keeps event ?c" using Suc.prems(2) by simp
  have d: "drop k cbs = ?c # drop (Suc k) cbs" using k by (simp add: Cons_nth_drop_Suc)
  have nth: "(cbs @ xs) ! k = ?c" using k by (simp add: nth_append)
  obtain L ys where 1: "emit_one event d ?c w =
     (Inr (), w\<lparr>user := fst (snd (cb_run ?c d (user w))),
        invoked := invoked w @ [(event, cb_id ?c)],
        listeners := L,
        ws_console := (if fst (cb_run ?c d (user w)) = None then ws_console w
                       else ws_console w @ [handler_error event])\<rparr>)"
    and 2: "L event = Some (cbs @ ys)"
    using emit_one_front[OF q Suc.prems(1)] by blast
  let ?w1 = "w\<lparr>user := fst (snd (cb_run ?c d (user w))),
        invoked := invoked w @ [(event, cb_id ?c)],
        listeners := L,
        ws_console := (if fst (cb_run ?c d (user w)) = None then ws_console w
                       else ws_console w @ [handler_error event])\<rparr>"
  have l1: "listeners ?w1 event = Some (cbs @ ys)" using 2 by simp
  have 3: "emit_from event d k (Suc n) w = emit_from event d (Suc k) n ?w1"
    using Suc.prems(1) k nth by (simp add: bind_def 1)
  have 4: "Suc k + n = length cbs" using Suc.prems(3) by simp
  from Suc.IH[OF l1 Suc.prems(2) 4] obtain L' zs where
    5: "emit_from event d (Suc k) n ?w1 =
     (Inr (), ?w1\<lparr>user := fst (deliver event d (drop (Suc k) cbs) (user ?w1, ws_console ?w1)),
        ws_console := snd (deliver event d (drop (Suc k) cbs) (user ?w1, ws_console ?w1)),
        invoked := invoked ?w1 @ map (\<lambda>c. (event, cb_id c)) (drop (Suc k) cbs),
        listeners := L'\<rparr>)"
    and 6: "L' event = Some (cbs @ zs)"
    by blast
  have "emit_from event d k (Suc n) w =
   (Inr (), w\<lparr>user := fst (deliver event d (drop k cbs) (user w, ws_console w)),
      ws_console := snd (deliver event d (drop k cbs) (user w, ws_console w)),
      invoked := invoked w @ map (\<lambda>c. (event, cb_id c)) (drop k cbs),
      listeners := L'\<rparr>)"
    unfolding 3 5 d by simp
  with 6 show ?case by blast
qed

lemma deliver_user:
  "fst (deliver event d cbs (u, logs)) = foldl (\<lambda>u c. fst (snd (cb_run c d u))) u cbs"
  by (induction cbs arbitrary: u logs) auto

text \<open>
  C7 (as amended). When the handlers \<open>cbs\<close> are registered for an event and none of them
  calls \<open>off\<close> for that event while it runs, \<open>emit\<close> returns normally and has called every
  one of them exactly once, in the order of the list, whether or not an earlier one threw:
  the calls recorded are those of \<open>cbs\<close> in order, the subscriber's state is the one
  reached by running them all in order, and the console has got one line for each handler
  that threw. The handlers are still registered afterwards, at the front of the list. The
  order of the list is the order of registration: \<open>on\<close> appends.
\<close>

theorem emit_invokes_every_handler:
  assumes "listeners w event = Some cbs" and "\<forall>c \<in> set cbs. keeps event c"
  shows "fst (emit event d w) = Inr () \<and>
         invoked (snd (emit event d w)) = invoked w @ map (\<lambda>c. (event, cb_id c)) cbs \<and>
         user (snd (emit event d w)) = foldl (\<lambda>u c. fst (snd (cb_run c d u))) (user w) cbs \<and>
         ws_console (snd (emit event d w)) = snd (deliver event d cbs (user w, ws_console w)) \<and>
         (\<exists>ys. listeners (snd (emit event d w)) event = Some (cbs @ ys)) \<and>
         listeners (snd (on event c w)) event = Some (cbs @ [c])"
proof -
  have "listeners w event = Some (cbs @ [])" using assms(1) by simp
  from emit_from_front[OF this assms(2), of 0 "length cbs" d] obtain L ys where
    1: "emit_from event d 0 (length cbs) w =
     (Inr (), w\<lparr>user := fst (deliver event d cbs (user w, ws_console w)),
        ws_console := snd (deliver event d cbs (user w, ws_console w)),
        invoked := invoked w @ map (\<lambda>c. (event, cb_id c)) cbs,
        listeners := L\<rparr>)"
    and 2: "L event = Some (cbs @ ys)"
    by auto
  have e: "emit event d w = emit_from event d 0 (length cbs) w"
    using assms(1) by (simp add: emit_def)
  have "(\<exists>ys. listeners (snd (emit event d w)) event = Some (cbs @ ys))"
    unfolding e 1 using 2 by simp
  moreover have "fst (emit event d w) = Inr () \<and>
         invoked (snd (emit event d w)) = invoked w @ map (\<lambda>c. (event, cb_id c)) cbs \<and>
         user (snd (emit event d w)) = foldl (\<lambda>u c. fst (snd (cb_run c d u))) (user w) cbs \<and>
         ws_console (snd (emit event d w)) = snd (deliver event d cbs (user w, ws_console w))"
    unfolding e 1 by (simp add: deliver_user)
  moreover have "listeners (snd (on event c w)) event = Some (cbs @ [c])"
    using assms(1) by (simp add: on_def modify_def)
  ultimately show ?thesis by blast
qed

text \<open>
  C7 as the specification states it fails. Two handlers are registered for one event; the
  first, when called, unsubscribes itself with \<open>off\<close>. \<open>emit\<close> calls the first handler and
  never the second: \<open>off\<close> has shortened the listener array over which \<open>emit\<close> is
  iterating, and the second handler has moved to the index already visited. It is still
  registered afterwards.
\<close>

theorem emit_skips_handler_counterexample:
  "map_option (map cb_id) (listeners two_subscribers ''metrics_update'') = Some [1, 2] \<and>
   invoked two_subscribers = [] \<and>
   fst (emit ''metrics_update'' JNull two_subscribers) = Inr () \<and>
   invoked (snd (emit ''metrics_update'' JNull two_subscribers)) = [(''metrics_update'', 1)] \<and>
   user (snd (emit ''metrics_update'' JNull two_subscribers)) = [1] \<and>
   map_option (map cb_id)
     (listeners (snd (emit ''metrics_update'' JNull two_subscribers)) ''metrics_update'') = Some [2]"
  by code_simp

theorem emit_invokes_every_handler_witness:
  "listeners subscribed ''metrics_update'' = Some [first_handler] \<and>
   (let w = snd (on ''metrics_update'' second_handler subscribed);
        w' = snd (emit ''metrics_update'' JNull w)
    in fst (emit ''metrics_update'' JNull w) = Inr () \<and>
       invoked w' = [(''metrics_update'', 1), (''metrics_update'', 2)] \<and>
       user w' = [1, 2] \<and>
       ws_console w' = [handler_error ''metrics_update''])"
proof -
  let ?w = "snd (on ''metrics_update'' second_handler subscribed)"
  have 1: "listeners subscribed ''metrics_update'' = Some [first_handler]"
    by (simp add: subscribed_def on_def modify_def fresh_def WebSocketService_def)
  have 2: "listeners ?w ''metrics_update'' = Some [first_handler, second_handler]"
    using 1 by (simp add: on_def modify_def)
  have q: "\<forall>c \<in> set [first_handler, second_handler]. keeps ''metrics_update'' c"
    by (simp add: keeps_def first_handler_def second_handler_def)
  have 3: "invoked ?w = []" "user ?w = []" "ws_console ?w = []" by code_simp+
  from emit_invokes_every_handler[OF 2 q, of JNull second_handler] 3
  have "fst (emit ''metrics_update'' JNull ?w) = Inr () \<and>
        invoked (snd (emit ''metrics_update'' JNull ?w)) =
          [(''metrics_update'', 1), (''metrics_update'', 2)] \<and>
        user (snd (emit ''metrics_update'' JNull ?w)) = [1, 2] \<and>
        ws_console (snd (emit ''metrics_update'' JNull ?w)) = [handler_error ''metrics_update'']"
    by (simp add: first_handler_def second_handler_def)
  with 1 show ?thesis by (simp add: Let_def)
qed

subsection \<open>Incoming frames\<close>

text \<open>
  C10. A frame that is not valid JSON changes nothing but the console, where the parse
  error is logged: the handler returns normally, no callback is called (\<open>invoked\<close> and the
  subscriber's state are as before), and the listeners, the connection flags and the
  reconnect state are as before.
\<close>

theorem malformed_message_fires_nothing:
  "socket_onmessage sid (NotJSON s) w =
     (Inr (), w\<lparr>ws_console := ws_console w @ [''Error parsing WebSocket message:'']\<rparr>)"
  by (simp add: socket_onmessage_def ws_defs)

theorem malformed_message_fires_nothing_witness:
  "socket_onmessage 0 (NotJSON ''{not json'') subscribed =
     (Inr (), subscribed\<lparr>ws_console := [''Error parsing WebSocket message:'']\<rparr>)"
proof -
  have "ws_console subscribed = []" by code_simp
  with malformed_message_fires_nothing[of 0 "''{not json''" subscribed] show ?thesis by simp
qed

subsection \<open>What sending and settling leave unchanged\<close>

lemma fst_send [simp]: "fst (send d w) = Inr ()"
  by (cases "socket w") (simp_all add: send_def ws_defs)

lemma send_fields [simp]:
  "socket (snd (send d w)) = socket w"
  "reconnectInterval (snd (send d w)) = reconnectInterval w"
  "reconnectAttempts (snd (send d w)) = reconnectAttempts w"
  "reconnectDelay (snd (send d w)) = reconnectDelay w"
  "listeners (snd (send d w)) = listeners w"
  "isConnected (snd (send d w)) = isConnected w"
  "isConnecting (snd (send d w)) = isConnecting w"
  "heartbeatInterval (snd (send d w)) = heartbeatInterval w"
  "timeouts (snd (send d w)) = timeouts w"
  "intervals (snd (send d w)) = intervals w"
  "invoked (snd (send d w)) = invoked w"
  "user (snd (send d w)) = user w"
  "length (transports (snd (send d w))) = length (transports w)"
  by (cases "socket w"; simp add: send_def ws_defs)+

lemma nth_update_same:
  "readyState t = readyState (ts ! sid) \<Longrightarrow> readyState (ts[sid := t] ! x) = readyState (ts ! x)"
  by (cases "x = sid"; cases "sid < length ts") (simp_all add: list_update_beyond)

lemma ready_send [simp]: "ready (snd (send d w)) = ready w"
  by (cases "socket w") (auto simp: send_def ws_defs ready_def fun_eq_iff nth_update_same)

lemma fst_settle [simp]: "fst (settle sid outcome w) = Inr ()"
  by (simp add: ws_defs)

lemma settle_fields [simp]:
  "socket (snd (settle sid outcome w)) = socket w"
  "reconnectInterval (snd (settle sid outcome w)) = reconnectInterval w"
  "reconnectAttempts (snd (settle sid outcome w)) = reconnectAttempts w"
  "reconnectDelay (snd (settle sid outcome w)) = reconnectDelay w"
  "listeners (snd (settle sid outcome w)) = listeners w"
  "isConnected (snd (settle sid outcome w)) = isConnected w"
  "isConnecting (snd (settle sid outcome w)) = isConnecting w"
  "heartbeatInterval (snd (settle sid outcome w)) = heartbeatInterval w"
  "timeouts (snd (settle sid outcome w)) = timeouts w"
  "intervals (snd (settle sid outcome w)) = intervals w"
  "invoked (snd (settle sid outcome w)) = invoked w"
  "user (snd (settle sid outcome w)) = user w"
  "ws_console (snd (settle sid outcome w)) = ws_console w"
  "length (transports (snd (settle sid outcome w))) = length (transports w)"
  by (simp_all add: ws_defs)

lemma ready_settle [simp]: "ready (snd (settle sid outcome w)) = ready w"
  by (auto simp: ws_defs ready_def fun_eq_iff nth_update_same)

lemma ready_console [simp]: "ready (w\<lparr>ws_console := c\<rparr>) = ready w"
  by (simp add: ready_def fun_eq_iff)

lemma ready_isConnecting [simp]: "ready (w\<lparr>isConnecting := c\<rparr>) = ready w"
  by (simp add: ready_def fun_eq_iff)

lemma ready_emit [simp]: "ready (snd (emit event d w)) = ready w"
  by (simp add: ready_def fun_eq_iff)

subsection \<open>Disconnecting\<close>

lemma onclose_normal:
  "timeouts (snd (socket_onclose url ps 1000 reason v)) = timeouts v \<and>
   reconnectInterval (snd (socket_onclose url ps 1000 reason v)) = reconnectInterval v"
  by (simp add: socket_onclose_def bind_via ws_small)

text \<open>
  C3 (as amended). \<open>disconnect\<close>, on a channel in any state, returns normally; it cancels
  the reconnect timer held in \<open>reconnectInterval\<close> and forgets it; it closes the transport,
  if there is one, with code 1000 and forgets it; it clears both connection flags; and a
  close reported with code 1000 afterwards schedules no reconnect. It does not touch the
  heartbeat: the interval timer keeps running, and its ticks send nothing while the
  channel is disconnected.
\<close>

theorem disconnect_effects:
  "fst (disconnect w) = Inr () \<and>
   reconnectInterval (snd (disconnect w)) = None \<and>
   (\<forall>tid. reconnectInterval w = Some tid \<longrightarrow> \<not> pending (snd (disconnect w)) tid) \<and>
   (\<forall>sid. socket w = Some sid \<and> sid < length (transports w) \<longrightarrow>
      close_calls (transports (snd (disconnect w)) ! sid) =
        close_calls (transports w ! sid) @ [(1000, ''Client disconnecting'')]) \<and>
   socket (snd (disconnect w)) = None \<and>
   \<not> isConnected (snd (disconnect w)) \<and> \<not> isConnecting (snd (disconnect w)) \<and>
   timeouts (snd (socket_onclose url ps 1000 reason (snd (disconnect w)))) =
     timeouts (snd (disconnect w)) \<and>
   reconnectInterval (snd (socket_onclose url ps 1000 reason (snd (disconnect w)))) = None \<and>
   heartbeatInterval (snd (disconnect w)) = heartbeatInterval w \<and>
   intervals (snd (disconnect w)) = intervals w \<and>
   heartbeat_tick now (snd (disconnect w)) = (Inr (), snd (disconnect w))"
proof -
  have 1: "fst (disconnect w) = Inr ()"
    by (cases "reconnectInterval w"; cases "socket w") (simp_all add: disconnect_def ws_defs)
  have 2: "reconnectInterval (snd (disconnect w)) = None"
    by (cases "reconnectInterval w"; cases "socket w") (simp_all add: disconnect_def ws_defs)
  have 3: "\<forall>tid. reconnectInterval w = Some tid \<longrightarrow> \<not> pending (snd (disconnect w)) tid"
    by (cases "reconnectInterval w"; cases "socket w")
       (simp_all add: disconnect_def pending_def ws_defs)
  have 4: "\<forall>sid. socket w = Some sid \<and> sid < length (transports w) \<longrightarrow>
      close_calls (transports (snd (disconnect w)) ! sid) =
        close_calls (transports w ! sid) @ [(1000, ''Client disconnecting'')]"
    by (cases "reconnectInterval w"; cases "socket w") (simp_all add: disconnect_def ws_defs)
  have 5: "socket (snd (disconnect w)) = None \<and>
     \<not> isConnected (snd (disconnect w)) \<and> \<not> isConnecting (snd (disconnect w))"
    by (cases "reconnectInterval w"; cases "socket w") (simp_all add: disconnect_def ws_defs)
  have 6: "heartbeatInterval (snd (disconnect w)) = heartbeatInterval w \<and>
     intervals (snd (disconnect w)) = intervals w"
    by (cases "reconnectInterval w"; cases "socket w") (simp_all add: disconnect_def ws_defs)
  have 7: "heartbeat_tick now (snd (disconnect w)) = (Inr (), snd (disconnect w))"
    using 5 by (simp add: heartbeat_tick_def isSocketConnected_def ret_def)
  from 1 2 3 4 5 6 7 onclose_normal[of url ps reason "snd (disconnect w)"]
  show ?thesis by simp
qed

text \<open>
  C3 as the specification states it fails: a heartbeat that was started is still running
  after \<open>disconnect\<close>.
\<close>

theorem heartbeat_survives_disconnect_counterexample:
  "heartbeatInterval beating = Some 0 \<and> active beating 0 \<and>
   heartbeatInterval (snd (disconnect beating)) = Some 0 \<and> active (snd (disconnect beating)) 0"
  by code_simp

theorem disconnect_effects_witness:
  "socket beating = Some 1 \<and> 1 < length (transports beating) \<and>
   reconnectInterval beating = Some 0 \<and> pending beating 0 \<and>
   heartbeatInterval beating = Some 0 \<and>
   fst (disconnect beating) = Inr () \<and>
   \<not> pending (snd (disconnect beating)) 0 \<and>
   close_calls (transports (snd (disconnect beating)) ! 1) = [(1000, ''Client disconnecting'')] \<and>
   heartbeatInterval (snd (disconnect beating)) = Some 0"
proof -
  have 1: "socket beating = Some 1" "reconnectInterval beating = Some 0" "pending beating 0"
    "close_calls (transports beating ! 1) = []" "1 < length (transports beating)"
    "heartbeatInterval beating = Some 0"
    by code_simp+
  from disconnect_effects[of beating "''/ws/dashboard/''" "[]" "[]" 0] 1
  show ?thesis by simp
qed

subsection \<open>Connecting twice\<close>

text \<open>
  C6 (as amended). \<open>connect\<close>, called while the channel is connecting or connected,
  opens no transport and changes nothing but the console; it returns a promise that is
  already fulfilled.
\<close>

theorem connect_while_connecting_or_open:
  assumes "isConnecting w \<or> isConnected w"
  shows "connect url protocols w =
     (Inr Resolved, w\<lparr>ws_console := ws_console w @ [''WebSocket already connecting or connected'']\<rparr>)"
  using assms by (auto simp: connect_def ws_defs)

text \<open>
  C6 as the specification states it fails, twice. The promise returned while connecting
  is not the one of the attempt in flight: that one is pending and is rejected when the
  transport fails. And two transports of one channel can be connecting at the same time:
  after \<open>disconnect\<close> and \<open>connect\<close>, the close of the old transport clears the flags
  that guard the new one, and the next \<open>connect\<close> opens a third.
\<close>

theorem second_transport_counterexample:
  "fst (connect ''/ws/dashboard/'' [] fresh) = Inr (Of_transport 0) \<and>
   t_promise (transports connecting ! 0) = Pending \<and>
   fst (connect ''/ws/dashboard/'' [] connecting) = Inr Resolved \<and>
   t_promise (transports (step (Fails 0) connecting) ! 0) = Rejected \<and>
   length (transports raced) = 3 \<and>
   ready raced 1 = CONNECTING \<and> ready raced 2 = CONNECTING"
proof -
  have "fst (connect ''/ws/dashboard/'' [] fresh) = Inr (Of_transport 0)"
    "t_promise (transports connecting ! 0) = Pending"
    "fst (connect ''/ws/dashboard/'' [] connecting) = Inr Resolved"
    "t_promise (transports (step (Fails 0) connecting) ! 0) = Rejected"
    "length (transports raced) = 3"
    "ready raced 1 = CONNECTING" "ready raced 2 = CONNECTING"
    by code_simp+
  then show ?thesis by simp
qed

theorem connect_while_connecting_or_open_witness:
  "isConnecting connecting \<and> length (transports connecting) = 1 \<and>
   fst (connect ''/ws/dashboard/'' [] connecting) = Inr Resolved \<and>
   length (transports (snd (connect ''/ws/dashboard/'' [] connecting))) = 1"
proof -
  have 1: "isConnecting connecting" "length (transports connecting) = 1" by code_simp+
  then have "isConnecting connecting \<or> isConnected connecting" by simp
  from connect_while_connecting_or_open[OF this, of "''/ws/dashboard/''" "[]"] 1
  show ?thesis by simp
qed

subsection \<open>The reconnect policy\<close>

lemma onopen_resets:
  "reconnectDelay (snd (socket_onopen sid w)) = 1000 \<and>
   reconnectAttempts (snd (socket_onopen sid w)) = 0"
  by (cases "reconnectInterval w")
     (simp_all add: socket_onopen_def bind_via ret_def modify_def ws_log_def clearTimeout_def)

lemma onclose_schedules:
  assumes "code \<noteq> 1000" "reconnectAttempts w < maxReconnectAttempts"
  shows "fst (socket_onclose url ps code reason w) = Inr () \<and>
      length (timeouts (snd (socket_onclose url ps code reason w))) = Suc (length (timeouts w)) \<and>
      reconnectInterval (snd (socket_onclose url ps code reason w)) = Some (length (timeouts w)) \<and>
      timeouts (snd (socket_onclose url ps code reason w)) ! length (timeouts w) =
        \<lparr>tm_delay = reconnectDelay w, tm_url = url, tm_protocols = ps, tm_pending = True\<rparr>"
  using assms
  by (cases "reconnectInterval w")
     (simp_all add: socket_onclose_def scheduleReconnect_def bind_via ws_small nth_append)

lemma timer_doubles:
  "reconnectDelay (snd (reconnect_timer url ps w)) = min (reconnectDelay w * 2) 30000 \<and>
   reconnectAttempts (snd (reconnect_timer url ps w)) = reconnectAttempts w + 1"
  by (simp add: reconnect_timer_def connect_def maxReconnectDelay_def ws_defs Let_def)

text \<open>
  C4. A close with a code other than 1000, while fewer than \<open>maxReconnectAttempts\<close>
  (five) attempts have been made, schedules one reconnect timer with the current delay
  and the address of the closed transport. The delay of a new channel is 1000 ms and its
  attempt counter is 0; each reconnect attempt adds one to the counter and doubles the
  delay, up to 30000 ms; a successful open resets the counter to 0 and the delay to
  1000 ms.
\<close>

theorem reconnect_policy:
  "(code \<noteq> 1000 \<and> reconnectAttempts w < maxReconnectAttempts \<longrightarrow>
      fst (socket_onclose url ps code reason w) = Inr () \<and>
      length (timeouts (snd (socket_onclose url ps code reason w))) = Suc (length (timeouts w)) \<and>
      reconnectInterval (snd (socket_onclose url ps code reason w)) = Some (length (timeouts w)) \<and>
      timeouts (snd (socket_onclose url ps code reason w)) ! length (timeouts w) =
        \<lparr>tm_delay = reconnectDelay w, tm_url = url, tm_protocols = ps, tm_pending = True\<rparr>) \<and>
   reconnectDelay (WebSocketService protocol host throws u) = 1000 \<and>
   reconnectAttempts (WebSocketService protocol host throws u) = 0 \<and>
   reconnectDelay (snd (reconnect_timer url ps w)) = min (reconnectDelay w * 2) 30000 \<and>
   reconnectAttempts (snd (reconnect_timer url ps w)) = reconnectAttempts w + 1 \<and>
   reconnectDelay (snd (socket_onopen sid w)) = 1000 \<and>
   reconnectAttempts (snd (socket_onopen sid w)) = 0"
  using onclose_schedules[of code w url ps reason] timer_doubles[of url ps w]
    onopen_resets[of sid w]
  by (simp add: WebSocketService_def)

theorem reconnect_policy_witness:
  "reconnectAttempts opened = 0 \<and> reconnectDelay opened = 1000 \<and> timeouts opened = [] \<and>
   reconnectInterval (snd (socket_onclose ''/ws/dashboard/'' [] 1006 [] opened)) = Some 0 \<and>
   timeouts (snd (socket_onclose ''/ws/dashboard/'' [] 1006 [] opened)) ! 0 =
     \<lparr>tm_delay = 1000, tm_url = ''/ws/dashboard/'', tm_protocols = [], tm_pending = True\<rparr> \<and>
   map tm_delay (timeouts (run storm opened)) = [1000, 2000, 4000, 8000, 16000] \<and>
   reconnectDelay (run storm opened) = 30000"
proof -
  have 1: "reconnectAttempts opened = 0" "reconnectDelay opened = 1000" "timeouts opened = []"
    "map tm_delay (timeouts (run storm opened)) = [1000, 2000, 4000, 8000, 16000]"
    "reconnectDelay (run storm opened) = 30000"
    by code_simp+
  have 2: "(1006::int) \<noteq> 1000 \<and> reconnectAttempts opened < maxReconnectAttempts"
    using 1 by (simp add: maxReconnectAttempts_def)
  from reconnect_policy[where code = 1006 and w = opened and url = "''/ws/dashboard/''"
      and ps = "[]" and reason = "[]" and sid = 0 and protocol = "''https:''"
      and host = "''example.org''" and throws = "\<lambda>_. False" and u = "[] :: nat list"] 1 2
  show ?thesis by simp
qed

subsection \<open>The bound on automatic reconnects\<close>

lemma view_cong:
  assumes "transports w' = transports w" "timeouts w' = timeouts w"
    "reconnectAttempts w' = reconnectAttempts w" "reconnectInterval w' = reconnectInterval w"
  shows "view w' = view w"
  using assms by (simp add: view_def alive_def ready_def pending_def fun_eq_iff)

lemma ready_view:
  assumes "ready w' = ready w" "timeouts w' = timeouts w"
    "reconnectAttempts w' = reconnectAttempts w" "reconnectInterval w' = reconnectInterval w"
  shows "view w' = view w"
  using assms by (simp add: view_def alive_def pending_def fun_eq_iff)

lemma view_same:
  assumes "view w' = view w"
  shows "steady w' = steady w" "budget w' = budget w" "length (timeouts w') = length (timeouts w)"
proof -
  from assms have e: "alive w' = alive w" "pending w' = pending w"
    "length (timeouts w') = length (timeouts w)" "reconnectAttempts w' = reconnectAttempts w"
    "reconnectInterval w' = reconnectInterval w"
    by (simp_all add: view_def)
  show "steady w' = steady w" unfolding steady_def e ..
  show "budget w' = budget w" unfolding budget_def e ..
  show "length (timeouts w') = length (timeouts w)" by (rule e)
qed

lemma alive_cong: "transports w' = transports w \<Longrightarrow> alive w' = alive w"
  by (simp add: alive_def ready_def fun_eq_iff)

lemma pending_cong: "timeouts w' = timeouts w \<Longrightarrow> pending w' = pending w"
  by (simp add: pending_def fun_eq_iff)

lemma view_on: "view (step (Call_on event c) w) = view w"
  by (rule view_cong) (simp_all add: step_def on_def ws_small)

lemma view_off: "view (step (Call_off event c) w) = view w"
  by (cases "listeners w event"; rule view_cong) (simp_all add: step_def off_def ws_small)

lemma view_send: "view (step (Call_send d) w) = view w"
  by (rule ready_view) (simp_all add: step_def)

lemma view_startHeartbeat: "view (step (Call_startHeartbeat p) w) = view w"
  by (cases "heartbeatInterval w"; rule view_cong)
     (simp_all add: step_def startHeartbeat_def stopHeartbeat_def ws_defs)

lemma view_stopHeartbeat: "view (step Call_stopHeartbeat w) = view w"
  by (cases "heartbeatInterval w"; rule view_cong)
     (simp_all add: step_def stopHeartbeat_def ws_defs)

lemma view_tick: "view (step (Interval_ticks iid now) w) = view w"
  by (rule ready_view) (simp_all add: step_def heartbeat_tick_def ret_def)

lemma fst_typed_emit:
  "fst ((case ty of JStr name \<Rightarrow> emit name d | _ \<Rightarrow> ret ()) w) = Inr ()"
  by (cases ty) (simp_all add: ret_def)

lemma typed_emit_fields:
  "transports (snd ((case ty of JStr name \<Rightarrow> emit name d | _ \<Rightarrow> ret ()) w)) = transports w"
  "timeouts (snd ((case ty of JStr name \<Rightarrow> emit name d | _ \<Rightarrow> ret ()) w)) = timeouts w"
  "reconnectAttempts (snd ((case ty of JStr name \<Rightarrow> emit name d | _ \<Rightarrow> ret ()) w)) = reconnectAttempts w"
  "reconnectInterval (snd ((case ty of JStr name \<Rightarrow> emit name d | _ \<Rightarrow> ret ()) w)) = reconnectInterval w"
  by (cases ty; simp add: ret_def)+

lemma onmessage_fields:
  fixes w :: "'u channel"
  shows "transports (snd (socket_onmessage sid x w)) = transports w"
  "timeouts (snd (socket_onmessage sid x w)) = timeouts w"
  "reconnectAttempts (snd (socket_onmessage sid x w)) = reconnectAttempts w"
  "reconnectInterval (snd (socket_onmessage sid x w)) = reconnectInterval w"
proof -
  have "transports (snd (socket_onmessage sid x w)) = transports w \<and>
        timeouts (snd (socket_onmessage sid x w)) = timeouts w \<and>
        reconnectAttempts (snd (socket_onmessage sid x w)) = reconnectAttempts w \<and>
        reconnectInterval (snd (socket_onmessage sid x w)) = reconnectInterval w"
  proof (cases x)
    case (NotJSON s)
    then show ?thesis by (simp add: socket_onmessage_def ws_defs)
  next
    case (JSONText v)
    show ?thesis
    proof (cases "v = JNull")
      case True
      then show ?thesis
        using JSONText
        by (simp add: socket_onmessage_def get_prop_def try_catch_def bind_via bind_thrown ws_small)
    next
      case False
      then obtain ty where g: "(get_prop v ''type'' :: ('u channel, json) js) = ret ty"
        by (cases v) (simp_all add: get_prop_def)
      show ?thesis
        using JSONText
        by (simp add: socket_onmessage_def g try_catch_via bind_via ws_small typed_emit_fields
            fst_typed_emit)
    qed
  qed
  then show "transports (snd (socket_onmessage sid x w)) = transports w"
    "timeouts (snd (socket_onmessage sid x w)) = timeouts w"
    "reconnectAttempts (snd (socket_onmessage sid x w)) = reconnectAttempts w"
    "reconnectInterval (snd (socket_onmessage sid x w)) = reconnectInterval w"
    by simp_all
qed

lemma view_delivers: "view (step (Delivers sid x) w) = view w"
  by (rule view_cong) (simp_all add: step_def onmessage_fields ret_def)

lemma onerror_fields:
  "ready (snd (socket_onerror sid w)) = ready w"
  "timeouts (snd (socket_onerror sid w)) = timeouts w"
  "reconnectAttempts (snd (socket_onerror sid w)) = reconnectAttempts w"
  "reconnectInterval (snd (socket_onerror sid w)) = reconnectInterval w"
  by (simp_all add: socket_onerror_def bind_via ret_def modify_def gets_def ws_log_def)

lemma view_fails: "view (step (Fails sid) w) = view w"
  by (rule ready_view) (simp_all add: step_def onerror_fields ret_def)

lemma quiet_step:
  assumes "automatic e" "\<forall>sid code reason. e \<noteq> Closes sid code reason"
    "\<forall>tid. e \<noteq> Timeout_fires tid"
  shows "view (step e w) = view w"
  using assms
  by (cases e)
     (simp_all add: view_on view_off view_send view_startHeartbeat view_stopHeartbeat
       view_tick view_delivers view_fails)

lemma closes_idle: "\<not> alive w sid \<Longrightarrow> step (Closes sid code reason) w = w"
  by (simp add: step_def alive_def ret_def)

lemma closes_state:
  assumes "alive w sid"
  shows "step (Closes sid code reason) w =
     snd (socket_onclose (t_url (transports w ! sid)) (t_protocols (transports w ! sid)) code reason
       (w\<lparr>transports := (transports w)[sid := (transports w ! sid)\<lparr>readyState := CLOSED\<rparr>]\<rparr>))"
proof -
  have "sid < length (transports w)" and "ready w sid \<noteq> CLOSED"
    using assms by (auto simp: alive_def ready_def split: if_splits)
  then show ?thesis by (simp add: step_def bind_via ws_small)
qed

lemma onclose_view:
  "transports (snd (socket_onclose url ps code reason v)) = transports v"
  "reconnectAttempts (snd (socket_onclose url ps code reason v)) = reconnectAttempts v"
  "\<not> (code \<noteq> 1000 \<and> reconnectAttempts v < maxReconnectAttempts) \<Longrightarrow>
     timeouts (snd (socket_onclose url ps code reason v)) = timeouts v \<and>
     reconnectInterval (snd (socket_onclose url ps code reason v)) = reconnectInterval v"
  "code \<noteq> 1000 \<and> reconnectAttempts v < maxReconnectAttempts \<Longrightarrow>
     length (timeouts (snd (socket_onclose url ps code reason v))) = Suc (length (timeouts v)) \<and>
     reconnectInterval (snd (socket_onclose url ps code reason v)) = Some (length (timeouts v)) \<and>
     (\<forall>t. pending (snd (socket_onclose url ps code reason v)) t \<longleftrightarrow>
        t = length (timeouts v) \<or> (pending v t \<and> reconnectInterval v \<noteq> Some t))"
proof -
  show "transports (snd (socket_onclose url ps code reason v)) = transports v"
    by (cases "reconnectInterval v")
       (simp_all add: socket_onclose_def scheduleReconnect_def bind_via ws_small)
  show "reconnectAttempts (snd (socket_onclose url ps code reason v)) = reconnectAttempts v"
    by (cases "reconnectInterval v")
       (simp_all add: socket_onclose_def scheduleReconnect_def bind_via ws_small)
  show "timeouts (snd (socket_onclose url ps code reason v)) = timeouts v \<and>
     reconnectInterval (snd (socket_onclose url ps code reason v)) = reconnectInterval v"
    if "\<not> (code \<noteq> 1000 \<and> reconnectAttempts v < maxReconnectAttempts)"
    using that by (auto simp: socket_onclose_def bind_via ws_small)
  show "length (timeouts (snd (socket_onclose url ps code reason v))) = Suc (length (timeouts v)) \<and>
     reconnectInterval (snd (socket_onclose url ps code reason v)) = Some (length (timeouts v)) \<and>
     (\<forall>t. pending (snd (socket_onclose url ps code reason v)) t \<longleftrightarrow>
        t = length (timeouts v) \<or> (pending v t \<and> reconnectInterval v \<noteq> Some t))"
    if "code \<noteq> 1000 \<and> reconnectAttempts v < maxReconnectAttempts"
    using that
    by (cases "reconnectInterval v")
       (auto simp: socket_onclose_def scheduleReconnect_def bind_via ws_small pending_def
         nth_append nth_list_update)
qed

lemma timeout_idle: "\<not> pending w tid \<Longrightarrow> step (Timeout_fires tid) w = w"
  by (simp add: step_def ret_def)

lemma timer_view:
  "timeouts (snd (reconnect_timer url ps v)) = timeouts v"
  "reconnectAttempts (snd (reconnect_timer url ps v)) = Suc (reconnectAttempts v)"
  "reconnectInterval (snd (reconnect_timer url ps v)) = reconnectInterval v"
  "\<forall>s. alive (snd (reconnect_timer url ps v)) s \<longrightarrow> alive v s \<or> s = length (transports v)"
proof -
  show "timeouts (snd (reconnect_timer url ps v)) = timeouts v"
    by (simp add: reconnect_timer_def connect_def ws_defs Let_def)
  show "reconnectAttempts (snd (reconnect_timer url ps v)) = Suc (reconnectAttempts v)"
    by (simp add: reconnect_timer_def connect_def ws_defs Let_def)
  show "reconnectInterval (snd (reconnect_timer url ps v)) = reconnectInterval v"
    by (simp add: reconnect_timer_def connect_def ws_defs Let_def)
  show "\<forall>s. alive (snd (reconnect_timer url ps v)) s \<longrightarrow> alive v s \<or> s = length (transports v)"
    by (auto simp: reconnect_timer_def connect_def ws_defs Let_def alive_def ready_def nth_append
        split: if_splits)
qed

lemma timeout_state:
  assumes "pending w tid"
  shows "step (Timeout_fires tid) w =
     snd (reconnect_timer (tm_url (timeouts w ! tid)) (tm_protocols (timeouts w ! tid))
       (w\<lparr>timeouts := (timeouts w)[tid := (timeouts w ! tid)\<lparr>tm_pending := False\<rparr>]\<rparr>))"
  using assms by (simp add: step_def pending_def bind_via ws_small)

lemma closes_step:
  assumes st: "steady w"
  shows "steady (step (Closes sid code reason) w) \<and>
         length (timeouts (step (Closes sid code reason) w)) + budget (step (Closes sid code reason) w)
           \<le> length (timeouts w) + budget w"
proof (cases "alive w sid")
  case False
  then show ?thesis using st by (simp add: closes_idle)
next
  case True
  let ?w0 = "w\<lparr>transports := (transports w)[sid := (transports w ! sid)\<lparr>readyState := CLOSED\<rparr>]\<rparr>"
  let ?url = "t_url (transports w ! sid)" and ?ps = "t_protocols (transports w ! sid)"
  let ?w' = "step (Closes sid code reason) w"
  have w': "?w' = snd (socket_onclose ?url ?ps code reason ?w0)"
    using closes_state[OF True] .
  have only: "\<And>s. alive w s \<Longrightarrow> s = sid"
    using st True by (auto simp: steady_def)
  have nopend: "\<And>t. \<not> pending w t"
    using st True by (auto simp: steady_def)
  have a0: "\<And>s. \<not> alive ?w0 s"
  proof
    fix s assume "alive ?w0 s"
    then have "s < length (transports w)" and r: "readyState (transports ?w0 ! s) \<noteq> CLOSED"
      by (auto simp: alive_def ready_def split: if_splits)
    then have "s \<noteq> sid" by (auto simp: nth_list_update)
    moreover have "alive w s"
      using r \<open>s < length (transports w)\<close> \<open>s \<noteq> sid\<close> by (simp add: alive_def ready_def)
    ultimately show False using only by blast
  qed
  have "alive ?w' = alive ?w0"
    unfolding w' by (rule alive_cong) (rule onclose_view(1))
  then have alive': "\<And>s. \<not> alive ?w' s"
    using a0 by simp
  have p0: "pending ?w0 = pending w" by (simp add: pending_def fun_eq_iff)
  have att: "reconnectAttempts ?w' = reconnectAttempts w"
    by (simp add: w' onclose_view(2))
  have bw: "budget w = maxReconnectAttempts - reconnectAttempts w"
    using True by (auto simp: budget_def)
  show ?thesis
  proof (cases "code \<noteq> 1000 \<and> reconnectAttempts w < maxReconnectAttempts")
    case sched: True
    then have c: "code \<noteq> 1000 \<and> reconnectAttempts ?w0 < maxReconnectAttempts" by simp
    from onclose_view(4)[OF c, of ?url ?ps reason]
    have len: "length (timeouts ?w') = Suc (length (timeouts w))"
      and ri: "reconnectInterval ?w' = Some (length (timeouts w))"
      and pend: "\<And>t. pending ?w' t \<longleftrightarrow> t = length (timeouts w)"
      using nopend by (simp_all add: w' p0)
    have "steady ?w'"
      unfolding steady_def using alive' pend ri by simp
    moreover have "budget ?w' = maxReconnectAttempts - Suc (reconnectAttempts w)"
      using alive' pend att by (auto simp: budget_def)
    ultimately show ?thesis using len bw sched by (simp del: diff_Suc) arith
  next
    case nosched: False
    then have c: "\<not> (code \<noteq> 1000 \<and> reconnectAttempts ?w0 < maxReconnectAttempts)" by simp
    from onclose_view(3)[OF c, of ?url ?ps reason]
    have tm: "timeouts ?w' = timeouts w" and ri: "reconnectInterval ?w' = reconnectInterval w"
      by (simp_all add: w')
    have "pending ?w' = pending w"
      by (rule pending_cong) (rule tm)
    then have pend: "\<And>t. \<not> pending ?w' t"
      using nopend by simp
    have "steady ?w'"
      unfolding steady_def using alive' pend by simp
    moreover have "budget ?w' = 0"
      using alive' pend by (auto simp: budget_def)
    ultimately show ?thesis using tm by simp
  qed
qed

lemma timeout_step:
  assumes st: "steady w"
  shows "steady (step (Timeout_fires tid) w) \<and>
         length (timeouts (step (Timeout_fires tid) w)) + budget (step (Timeout_fires tid) w)
           \<le> length (timeouts w) + budget w"
proof (cases "pending w tid")
  case False
  then show ?thesis using st by (simp add: timeout_idle)
next
  case True
  let ?w0 = "w\<lparr>timeouts := (timeouts w)[tid := (timeouts w ! tid)\<lparr>tm_pending := False\<rparr>]\<rparr>"
  let ?url = "tm_url (timeouts w ! tid)" and ?ps = "tm_protocols (timeouts w ! tid)"
  let ?w' = "step (Timeout_fires tid) w"
  have w': "?w' = snd (reconnect_timer ?url ?ps ?w0)"
    using timeout_state[OF True] .
  have noalive: "\<And>s. \<not> alive w s"
    using st True by (auto simp: steady_def)
  have only: "\<And>t. pending w t \<Longrightarrow> t = tid"
    using st True by (metis steady_def option.inject)
  have p0: "\<And>t. \<not> pending ?w0 t"
  proof
    fix t assume p: "pending ?w0 t"
    then have "t < length (timeouts w)" by (simp add: pending_def)
    with p have "t \<noteq> tid" by (auto simp: pending_def)
    with p have "pending w t" by (simp add: pending_def)
    with only \<open>t \<noteq> tid\<close> show False by blast
  qed
  have "pending ?w' = pending ?w0"
    unfolding w' by (rule pending_cong) (rule timer_view(1))
  then have pend: "\<And>t. \<not> pending ?w' t"
    using p0 by simp
  have a0: "alive ?w0 = alive w" by (simp add: alive_def ready_def fun_eq_iff)
  have alive': "\<And>s. alive ?w' s \<Longrightarrow> s = length (transports w)"
    using timer_view(4)[of ?url ?ps ?w0] noalive by (auto simp: w' a0)
  have len: "length (timeouts ?w') = length (timeouts w)"
    by (simp add: w' timer_view(1))
  have att: "reconnectAttempts ?w' = Suc (reconnectAttempts w)"
    by (simp add: w' timer_view(2))
  have "steady ?w'"
    unfolding steady_def using alive' pend by blast
  moreover have "budget ?w' \<le> maxReconnectAttempts - Suc (reconnectAttempts w)"
    using pend att by (auto simp: budget_def)
  moreover have "budget w = maxReconnectAttempts - Suc (reconnectAttempts w)"
    using noalive True by (auto simp: budget_def)
  ultimately show ?thesis using len by simp
qed

lemma step_bound:
  assumes "steady w" "automatic e"
  shows "steady (step e w) \<and>
         length (timeouts (step e w)) + budget (step e w) \<le> length (timeouts w) + budget w"
proof (cases "(\<exists>sid code reason. e = Closes sid code reason) \<or> (\<exists>tid. e = Timeout_fires tid)")
  case True
  then show ?thesis using closes_step[OF assms(1)] timeout_step[OF assms(1)] by auto
next
  case False
  then have "view (step e w) = view w"
    using quiet_step[OF assms(2), of w] by blast
  then show ?thesis using view_same[of "step e w" w] assms(1) by simp
qed

lemma run_bound:
  assumes "steady w" "\<forall>e \<in> set es. automatic e"
  shows "steady (run es w) \<and>
         length (timeouts (run es w)) + budget (run es w) \<le> length (timeouts w) + budget w"
  using assms
proof (induction es arbitrary: w)
  case Nil
  then show ?case by simp
next
  case (Cons e es)
  from step_bound[of w e] Cons.prems
  have s: "steady (step e w)"
    and b: "length (timeouts (step e w)) + budget (step e w) \<le> length (timeouts w) + budget w"
    by simp_all
  from Cons.IH[OF s] Cons.prems(2)
  have "steady (run es (step e w))"
    and "length (timeouts (run es (step e w))) + budget (run es (step e w))
           \<le> length (timeouts (step e w)) + budget (step e w)"
    by simp_all
  with b show ?case by simp
qed

lemma budget_le: "budget w \<le> maxReconnectAttempts - reconnectAttempts w"
  by (auto simp: budget_def)

text \<open>
  C5 (as amended). In every execution that starts from a steady channel (at most one
  transport not yet closed, no reconnect timer pending beside it) and consists of
  automatic events only (no successful open, no call of \<open>connect\<close> or \<open>disconnect\<close>), the
  channel schedules at most \<open>5 - reconnectAttempts\<close> reconnects: starting with the counter
  at 0, as it is after an open, there is no sixth, however many unclean closes follow.
\<close>

theorem no_sixth_reconnect:
  assumes "steady w" and "\<forall>e \<in> set es. automatic e"
  shows "length (timeouts (run es w)) \<le> length (timeouts w) + (5 - reconnectAttempts w)"
proof -
  have "length (timeouts (run es w)) \<le> length (timeouts w) + budget w"
    using run_bound[OF assms] by simp
  also have "\<dots> \<le> length (timeouts w) + (5 - reconnectAttempts w)"
    using budget_le[of w] by (simp add: maxReconnectAttempts_def)
  finally show ?thesis .
qed

text \<open>
  C5 as the specification states it fails. After five unclean closes and five failed
  attempts, \<open>disconnect\<close> resets the attempt counter; the close of the transport it closed
  is reported as unclean, a sixth reconnect is scheduled and a seventh transport is opened,
  with no successful open and no call of \<open>connect\<close>. A call of \<open>connect\<close> while a reconnect
  timer is pending, and a start with two transports alive, also lead to a sixth reconnect
  without a successful open.
\<close>

theorem sixth_reconnect_counterexample:
  "reconnectAttempts opened = 0 \<and> timeouts opened = [] \<and> length (transports opened) = 1 \<and>
   list_all (\<lambda>e. case e of Opens sid \<Rightarrow> False | Call_connect url ps \<Rightarrow> False | _ \<Rightarrow> True)
     after_disconnect \<and>
   length (filter (\<lambda>e. case e of Closes sid code reason \<Rightarrow> code \<noteq> 1000 | _ \<Rightarrow> False)
     after_disconnect) = 6 \<and>
   length (timeouts (run after_disconnect opened)) = 6 \<and>
   length (transports (run after_disconnect opened)) = 7 \<and>
   list_all (\<lambda>e. case e of Opens sid \<Rightarrow> False | _ \<Rightarrow> True) hasty \<and>
   length (timeouts (run hasty opened)) = 6 \<and>
   list_all automatic doubled \<and>
   reconnectAttempts raced = 0 \<and> timeouts raced = [] \<and>
   length (timeouts (run doubled raced)) = 6"
  by code_simp

lemma steady_opened: "steady opened"
proof -
  have l: "length (transports opened) = 1" and t: "timeouts opened = []" by code_simp+
  show ?thesis
    unfolding steady_def alive_def ready_def pending_def using l t by auto
qed

theorem no_sixth_reconnect_witness:
  "steady opened \<and> list_all automatic storm \<and>
   reconnectAttempts opened = 0 \<and> timeouts opened = [] \<and>
   length (timeouts (run storm opened)) \<le> 5 \<and>
   length (filter (\<lambda>e. case e of Closes sid code reason \<Rightarrow> code \<noteq> 1000 | _ \<Rightarrow> False) storm) = 6"
proof -
  have a: "\<forall>e \<in> set storm. automatic e" by (simp add: storm_def)
  have 1: "reconnectAttempts opened = 0" "timeouts opened = []"
    "length (filter (\<lambda>e. case e of Closes sid code reason \<Rightarrow> code \<noteq> 1000 | _ \<Rightarrow> False) storm) = 6"
    by code_simp+
  from no_sixth_reconnect[OF steady_opened a] 1 steady_opened a
  show ?thesis by (simp add: list_all_iff)
qed

end
